theory Spec2Isabelle
  imports Complex_Main
begin

unbundle bit_operations_syntax

section \<open>Values shared by the examples and the cell editor\<close>

text \<open>
  JavaScript numbers are modelled as \<^typ>\<open>real\<close>: the arithmetic of the sources
  (sums, products, \<open>Math.max\<close>, \<open>Math.min\<close>, \<open>Math.abs\<close>, \<open>Math.round\<close>) is taken
  exactly, without the rounding of IEEE doubles and without \<open>NaN\<close>.

  The toolkit's geometry classes inherit from each other: \<open>mxRectangle\<close> extends
  \<open>mxPoint\<close>, and \<open>mxCellState\<close> and \<open>mxGeometry\<close> extend \<open>mxRectangle\<close>.
\<close>

record mxPoint =
  x :: real
  y :: real

record mxRectangle = mxPoint +
  width :: real
  height :: real

section \<open>The bouncing balls example\<close>

subsection \<open>\<open>Array.prototype.filterInPlace\<close>\<close>

text \<open>
  The loop of \<open>filterInPlace\<close>, with the array, the index \<open>i\<close> and the counter
  \<open>removed\<close> as its state. The array keeps its length during the loop; the
  assignment \<open>this.length -= removed\<close> after the loop truncates it. The predicate is
  a pure function to the truth value of its result.
\<close>

function filterInPlace_loop ::
  "('a \<Rightarrow> bool) \<Rightarrow> 'a list \<Rightarrow> nat \<Rightarrow> nat \<Rightarrow> 'a list \<times> nat" where
  "filterInPlace_loop cond arr i removed =
     (if i < length arr then
        (if \<not> cond (arr ! i) then filterInPlace_loop cond arr (i + 1) (removed + 1)
         else filterInPlace_loop cond
                (if removed > 0 then arr[i - removed := arr ! i] else arr) (i + 1) removed)
      else (arr, removed))"
  by pat_completeness auto
termination
  by (relation "measure (\<lambda>(cond, arr, i, removed). length arr - i)") auto

declare filterInPlace_loop.simps [simp del]

definition filterInPlace :: "('a \<Rightarrow> bool) \<Rightarrow> 'a list \<Rightarrow> 'a list" where
  "filterInPlace cond arr =
     (case filterInPlace_loop cond arr 0 0 of
        (arr', removed) \<Rightarrow> take (length arr' - removed) arr')"

subsection \<open>The animation callback\<close>

text \<open>
  A ball is a cell with its geometry and the two velocity components that the
  \<open>CELLS_ADDED\<close> listener attaches to it. Cells are objects: the array
  \<open>movingBalls\<close> holds references, so the model keeps the cells in a store indexed
  by reference and the array as a list of references. Every cell owns its own
  geometry object.
\<close>

type_synonym cell = nat







definition onSelectionChange ::
  "cell list option \<Rightarrow> cell list option \<Rightarrow> cell list \<Rightarrow> cell list" where
  "onSelectionChange removed added movingBalls =
     (let mb1 = (case removed of None \<Rightarrow> movingBalls
                 | Some r \<Rightarrow> filterInPlace (\<lambda>c. c \<notin> set r) movingBalls)
      in case added of None \<Rightarrow> mb1 | Some a \<Rightarrow> mb1 @ a)"



section \<open>The cell editor\<close>

subsection \<open>Completions of JavaScript code\<close>

text \<open>
  A method of the editor either returns or throws. The only exception the code of
  the editor can raise by itself is the \<open>TypeError\<close> of a property access on
  \<open>null\<close> or \<open>undefined\<close>. A method that throws has already made the assignments
  before the faulting access, so both completions carry the state.
\<close>

datatype js_error = TypeError

datatype 's completion = Normal 's | Throw js_error 's

fun state_of :: "'s completion \<Rightarrow> 's" where
  "state_of (Normal s) = s"
| "state_of (Throw e s) = s"

fun throws :: "'s completion \<Rightarrow> bool" where
  "throws (Normal s) = False"
| "throws (Throw e s) = True"

fun andThen :: "'s completion \<Rightarrow> ('s \<Rightarrow> 's completion) \<Rightarrow> 's completion" where
  "andThen (Normal s) f = f s"
| "andThen (Throw e s) f = Throw e s"

subsection \<open>Data of the toolkit that the editor reads\<close>

text \<open>
  Cells, trigger events and DOM nodes are objects compared by identity. An
  \<open>mxText\<close> shape carries the DOM node of the rendered label, the bounding box and
  margin of the text (either may be \<open>null\<close>) and the font size (\<open>size\<close> in the
  source).
\<close>

type_synonym mouse_event = nat
type_synonym dom_node = nat

record mxText =
  node :: dom_node
  boundingBox :: "mxRectangle option"
  margin :: "mxPoint option"
  size_pt :: real

text \<open>
  The style of a cell state is a dictionary from style keys to values. The model
  has one optional entry for each key the editor reads (\<open>None\<close> is an absent key),
  typed as the toolkit documents the key: a number for the font size and the
  spacings, the bit set of font styles as an integer, a string otherwise.
\<close>

record mxStyle =
  fontSize :: "real option"
  fontFamily :: "string option"
  fontColor :: "string option"
  align :: "string option"
  verticalAlign :: "string option"
  fontStyle :: "int option"
  spacing :: "real option"
  spacingTop :: "real option"
  spacingRight :: "real option"
  spacingBottom :: "real option"
  spacingLeft :: "real option"
  labelPosition :: "string option"
  verticalLabelPosition :: "string option"

text \<open>The cell state: \<open>text_shape\<close> is the field \<open>state.text\<close> of the source.\<close>

record mxCellState = mxRectangle +
  cell :: cell
  absoluteOffset :: mxPoint
  style :: mxStyle
  text_shape :: "mxText option"

subsection \<open>The DOM elements of the editor\<close>

text \<open>
  Of the inline style of the two elements the model keeps the properties that the
  editor computes or reads back; a length in pixels is its number, \<open>None\<close> when
  the property has not been set. The constant presentation properties that are
  only ever written (\<open>className\<close>, \<open>position\<close>, \<open>overflow\<close>, \<open>outline\<close>,
  \<open>zIndex\<close>, \<open>resize\<close>, \<open>zoom\<close>, \<open>verticalAlign\<close>, \<open>cols\<close>, \<open>rows\<close>) are left out.
  \<open>tvalue\<close> is the \<open>value\<close> of the textarea, \<open>parentNode\<close> tells whether it is
  attached to a parent (the container of the graph).
\<close>

record css_style =
  css_fontSize :: "int option"
  css_lineHeight :: "int option"
  css_fontFamily :: string
  css_fontWeight :: string
  css_textAlign :: string
  css_fontStyle :: string
  css_textDecoration :: string
  css_width :: "real option"

record mxTextarea = css_style +
  tvalue :: string
  css_color :: string
  css_left :: "real option"
  css_top :: "real option"
  css_height :: "real option"
  css_display :: string
  parentNode :: bool
  focused :: bool
  selected :: bool

record mxTextDiv = css_style +
  css_whiteSpace :: string
  css_visibility :: string
  css_div_display :: string
  innerHTML :: string

subsection \<open>The graph and the browser, as the editor sees them\<close>

text \<open>
  The enclosing graph, its view and model, the constants of \<open>mxConstants\<close> and
  \<open>mxClient\<close>, the helpers of \<open>mxUtils\<close> and the layout engine of the browser
  are not part of the sources of the editor: they are parameters of the model.
  \<open>getState\<close> is \<open>graph.getView().getState\<close>, \<open>scale\<close> is
  \<open>graph.getView().scale\<close>, \<open>isEdge\<close> and \<open>isVertex\<close> are those of
  \<open>graph.getModel()\<close>; \<open>offsetWidth\<close> and \<open>offsetHeight\<close> are what the browser
  measures for the hidden text div.
\<close>

record mxGraph =
  getState :: "cell \<Rightarrow> mxCellState option"
  scale :: real
  isEdge :: "cell \<Rightarrow> bool"
  isVertex :: "cell \<Rightarrow> bool"
  getEditingValue :: "cell \<Rightarrow> mouse_event option \<Rightarrow> string option"
  isLabelClipped :: "cell \<Rightarrow> bool"
  isWrapping :: "cell \<Rightarrow> bool"
  isEnterStopsCellEditing :: bool
  isInvokesStopCellEditing :: bool
  DEFAULT_FONTSIZE :: real
  DEFAULT_FONTFAMILY :: string
  LINE_HEIGHT :: real
  FONT_BOLD :: int
  FONT_ITALIC :: int
  FONT_UNDERLINE :: int
  IS_IOS :: bool
  IS_QUIRKS :: bool
  getAlignmentAsPoint :: "string \<Rightarrow> string \<Rightarrow> mxPoint"
  htmlEntities :: "string \<Rightarrow> string"
  offsetWidth :: "mxTextDiv \<Rightarrow> real"
  offsetHeight :: "mxTextDiv \<Rightarrow> real"

text \<open>
  Modelled from the spec: the alignment constants of \<open>mxConstants\<close>, which is not
  among the sources; the spec names the label positions \<open>left\<close>, \<open>right\<close>, \<open>top\<close>,
  \<open>bottom\<close> and the centred ones.
\<close>

definition ALIGN_LEFT :: string where "ALIGN_LEFT = ''left''"
definition ALIGN_CENTER :: string where "ALIGN_CENTER = ''center''"
definition ALIGN_RIGHT :: string where "ALIGN_RIGHT = ''right''"
definition ALIGN_TOP :: string where "ALIGN_TOP = ''top''"
definition ALIGN_MIDDLE :: string where "ALIGN_MIDDLE = ''middle''"
definition ALIGN_BOTTOM :: string where "ALIGN_BOTTOM = ''bottom''"

text \<open>
  Modelled from the spec: \<open>mxUtils.getValue\<close>, which is not among the sources; a
  style entry is read with a documented default that stands in for an absent entry.
\<close>

definition getValue :: "'a option \<Rightarrow> 'a \<Rightarrow> 'a" where
  "getValue entry defaultValue = (case entry of None \<Rightarrow> defaultValue | Some v \<Rightarrow> v)"

text \<open>
  \<open>style[key] || d\<close>: the default also replaces an entry that is falsy, which for a
  number is \<open>0\<close>. \<open>parseInt\<close> of a number cuts its fraction off (for the magnitudes
  that JavaScript prints without an exponent).
\<close>

definition orDefault :: "real option \<Rightarrow> real \<Rightarrow> real" where
  "orDefault entry d = (case entry of None \<Rightarrow> d | Some v \<Rightarrow> if v = 0 then d else v)"

definition parseInt :: "real \<Rightarrow> real" where
  "parseInt v = (if 0 \<le> v then of_int \<lfloor>v\<rfloor> else of_int \<lceil>v\<rceil>)"

text \<open>\<open>Math.round\<close> rounds to the nearest integer, a half upwards.\<close>

definition js_round :: "real \<Rightarrow> int" where
  "js_round v = \<lfloor>v + 1 / 2\<rfloor>"

subsection \<open>The editor object\<close>

text \<open>
  The field \<open>textNode\<close> is the empty string in the prototype, \<open>null\<close> or the hidden
  DOM node of the label afterwards.
\<close>

datatype textNode_ref = EmptyString | Null | Node dom_node

text \<open>
  The fields of \<open>mxCellEditor\<close>, followed by what the editor changes outside
  itself: the \<open>style.visibility\<close> it sets on label nodes, the calls of
  \<open>graph.labelChanged\<close> in the order they are made (cell, value, trigger), and the
  callbacks it has passed to \<open>setTimeout\<close> that have not run yet. \<open>clearOnChange\<close>
  is \<open>undefined\<close>, which is falsy, before the first edit; \<open>changeHandler\<close> tells
  whether the handler exists and listens to the model.
\<close>

record mxCellEditor =
  textarea :: "mxTextarea option"
  editingCell :: "cell option"
  trigger :: "mouse_event option"
  modified :: bool
  autoSize :: bool
  selectText :: bool
  emptyLabelText :: string
  textNode :: textNode_ref
  textDiv :: "mxTextDiv option"
  bounds :: "mxRectangle option"
  clearOnChange :: bool
  changeHandler :: bool
  visibility :: "dom_node \<rightharpoonup> string"
  labelChanged :: "(cell \<times> string \<times> mouse_event option) list"
  resizeTimers :: nat
  selectTimers :: nat

text \<open>The constructor, with the defaults of the prototype.\<close>

definition new_mxCellEditor :: "(dom_node \<rightharpoonup> string) \<Rightarrow> mxCellEditor" where
  "new_mxCellEditor vis =
     \<lparr>textarea = None, editingCell = None, trigger = None, modified = False,
      autoSize = True, selectText = True, emptyLabelText = [], textNode = EmptyString,
      textDiv = None, bounds = None, clearOnChange = False, changeHandler = False,
      visibility = vis, labelChanged = [], resizeTimers = 0, selectTimers = 0\<rparr>"

definition isModified :: "mxCellEditor \<Rightarrow> bool" where
  "isModified s = modified s"

definition setModified :: "bool \<Rightarrow> mxCellEditor \<Rightarrow> mxCellEditor" where
  "setModified v s = s\<lparr>modified := v\<rparr>"

definition isHideLabel :: "mxCellState \<Rightarrow> bool" where
  "isHideLabel st = True"

definition getEmptyLabelText :: "mxCellEditor \<Rightarrow> string" where
  "getEmptyLabelText s = emptyLabelText s"

definition getEditingCell :: "mxCellEditor \<Rightarrow> cell option" where
  "getEditingCell s = editingCell s"

definition getInitialValue ::
  "mxGraph \<Rightarrow> mxCellState \<Rightarrow> mouse_event option \<Rightarrow> string option" where
  "getInitialValue g st trg = getEditingValue g (cell st) trg"

subsection \<open>\<open>getMinimumSize\<close> and \<open>getEditorBounds\<close>\<close>

text \<open>Reading \<open>this.textarea.style\<close> before \<open>init\<close> created the textarea throws.\<close>

definition getMinimumSize ::
  "mxGraph \<Rightarrow> mxCellEditor \<Rightarrow> mxCellState \<Rightarrow> js_error + mxRectangle" where
  "getMinimumSize g s st =
     (case textarea s of
        None \<Rightarrow> Inl TypeError
      | Some ta \<Rightarrow>
          Inr \<lparr>x = 0, y = 0,
               width = (case text_shape st of None \<Rightarrow> 30
                        | Some tx \<Rightarrow> size_pt tx * scale g + 20),
               height = (if css_textAlign ta = ''left'' then 120 else 40)\<rparr>)"

text \<open>
  The horizontal and vertical label positions, applied to a rectangle as the last
  step of \<open>getEditorBounds\<close> and again in \<open>resize\<close>.
\<close>

definition applyLabelPosition :: "mxCellState \<Rightarrow> mxRectangle \<Rightarrow> mxRectangle" where
  "applyLabelPosition st r =
     (let horizontal = getValue (labelPosition (style st)) ALIGN_CENTER;
          r1 = (if horizontal = ALIGN_LEFT then r\<lparr>x := x r - width st\<rparr>
                else if horizontal = ALIGN_RIGHT then r\<lparr>x := x r + width st\<rparr>
                else r);
          vertical = getValue (verticalLabelPosition (style st)) ALIGN_MIDDLE
      in if vertical = ALIGN_TOP then r1\<lparr>y := y r1 - height st\<rparr>
         else if vertical = ALIGN_BOTTOM then r1\<lparr>y := y r1 + height st\<rparr>
         else r1)"

text \<open>\<open>state.text.boundingBox\<close>, when both the text shape and its box exist.\<close>

definition textBoundingBox :: "mxCellState \<Rightarrow> mxRectangle option" where
  "textBoundingBox st = (case text_shape st of None \<Rightarrow> None | Some tx \<Rightarrow> boundingBox tx)"

definition getEditorBounds ::
  "mxGraph \<Rightarrow> mxCellEditor \<Rightarrow> mxCellState \<Rightarrow> js_error + mxRectangle" where
  "getEditorBounds g s st =
     (case getMinimumSize g s st of
        Inl e \<Rightarrow> Inl e
      | Inr minSize \<Rightarrow>
          (let edge = isEdge g (cell st);
               minWidth = width minSize;
               minHeight = height minSize;
               spacing0 = parseInt (orDefault (spacing (style st)) 2) * scale g;
               spacingTop0 = parseInt (orDefault (spacingTop (style st)) 0) * scale g + spacing0;
               spacingRight0 = parseInt (orDefault (spacingRight (style st)) 0) * scale g + spacing0;
               spacingBottom0 = parseInt (orDefault (spacingBottom (style st)) 0) * scale g + spacing0;
               spacingLeft0 = parseInt (orDefault (spacingLeft (style st)) 0) * scale g + spacing0;
               result0 = \<lparr>x = x st, y = y st,
                          width = max minWidth (width st - spacingLeft0 - spacingRight0),
                          height = max minHeight (height st - spacingTop0 - spacingBottom0)\<rparr>;
               result1 =
                 (if edge then
                    (let r = result0\<lparr>x := x (absoluteOffset st), y := y (absoluteOffset st)\<rparr>
                     in case textBoundingBox st of
                          None \<Rightarrow> r
                        | Some bb \<Rightarrow>
                            (let r' = (if x bb > 0 then r\<lparr>x := x bb\<rparr> else r)
                             in if y bb > 0 then r'\<lparr>y := y bb\<rparr> else r'))
                  else
                    (case textBoundingBox st of
                       None \<Rightarrow> result0
                     | Some bb \<Rightarrow> result0\<lparr>x := min (x result0) (x bb), y := min (y result0) (y bb)\<rparr>));
               result2 = result1\<lparr>x := x result1 + spacingLeft0, y := y result1 + spacingTop0\<rparr>;
               result3 =
                 (case textBoundingBox st of
                    None \<Rightarrow> result2
                  | Some bb \<Rightarrow>
                      if \<not> edge then
                        result2\<lparr>width := max (width result2) (width bb),
                                height := max (height result2) (height bb)\<rparr>
                      else
                        result2\<lparr>width := max minWidth (width bb),
                                height := max minHeight (height bb)\<rparr>)
           in Inr (if isVertex g (cell st) then applyLabelPosition st result3 else result3)))"

subsection \<open>\<open>init\<close>\<close>

text \<open>
  \<open>init\<close> creates the textarea, installs its listeners (the handlers \<open>onBlur\<close>,
  \<open>onChange\<close>, \<open>onKeyDown\<close> and \<open>onInput\<close> below) and registers the change
  handler with the model.
\<close>

definition new_textarea :: mxTextarea where
  "new_textarea =
     \<lparr>css_fontSize = None, css_lineHeight = None, css_fontFamily = [], css_fontWeight = [],
      css_textAlign = [], css_fontStyle = [], css_textDecoration = [], css_width = None,
      tvalue = [], css_color = [], css_left = None, css_top = None, css_height = None,
      css_display = [], parentNode = False, focused = False, selected = False\<rparr>"

definition init :: "mxCellEditor \<Rightarrow> mxCellEditor" where
  "init s = s\<lparr>textarea := Some new_textarea, changeHandler := True\<rparr>"

subsection \<open>\<open>stopEditing\<close>\<close>

text \<open>\<open>getCurrentValue\<close>: the value of the textarea without its carriage returns.\<close>

definition getCurrentValue :: "mxCellEditor \<Rightarrow> js_error + string" where
  "getCurrentValue s =
     (case textarea s of
        None \<Rightarrow> Inl TypeError
      | Some ta \<Rightarrow> Inr (filter (\<lambda>ch. ch \<noteq> CHR 0x0D) (tvalue ta)))"

text \<open>
  The three parts of the body of \<open>stopEditing\<close>, in the order of the source: the
  hidden label is shown again; the value is applied through \<open>graph.labelChanged\<close>
  when the edit is not cancelled and the editor is modified (the arguments are
  evaluated before the call, so a failing \<open>getCurrentValue\<close> prevents it); the text
  div is removed, the fields are cleared, and the textarea is blurred and removed
  from its parent. The call of \<open>graph.labelChanged\<close> is recorded; what the graph does
  with it is not part of the editor. The blur listener that \<open>textarea.blur()\<close>
  triggers calls \<open>stopEditing\<close> again, which finds \<open>editingCell\<close> cleared and does
  nothing.
\<close>

definition showLabel :: "mxCellEditor \<Rightarrow> mxCellEditor completion" where
  "showLabel s =
     (case textNode s of
        Null \<Rightarrow> Normal s
      | EmptyString \<Rightarrow> Throw TypeError s
      | Node n \<Rightarrow> Normal (s\<lparr>visibility := (visibility s)(n \<mapsto> ''visible''), textNode := Null\<rparr>))"

definition applyValue :: "bool \<Rightarrow> cell \<Rightarrow> mxCellEditor \<Rightarrow> mxCellEditor completion" where
  "applyValue cancel c s =
     (if \<not> cancel \<and> isModified s then
        (case getCurrentValue s of
           Inl e \<Rightarrow> Throw e s
         | Inr v \<Rightarrow> Normal (s\<lparr>labelChanged := labelChanged s @ [(c, v, trigger s)]\<rparr>))
      else Normal s)"

definition releaseEditor :: "mxCellEditor \<Rightarrow> mxCellEditor completion" where
  "releaseEditor s =
     (let s1 = s\<lparr>textDiv := None, editingCell := None, trigger := None, bounds := None\<rparr>
      in case textarea s1 of
           None \<Rightarrow> Throw TypeError s1
         | Some ta \<Rightarrow>
             if parentNode ta
             then Normal (s1\<lparr>textarea := Some (ta\<lparr>focused := False, parentNode := False\<rparr>)\<rparr>)
             else Throw TypeError (s1\<lparr>textarea := Some (ta\<lparr>focused := False\<rparr>)\<rparr>))"

definition stopEditing :: "bool \<Rightarrow> mxCellEditor \<Rightarrow> mxCellEditor completion" where
  "stopEditing cancel s =
     (case editingCell s of
        None \<Rightarrow> Normal s
      | Some c \<Rightarrow> andThen (andThen (showLabel s) (applyValue cancel c)) releaseEditor)"

subsection \<open>\<open>resize\<close>\<close>

text \<open>\<open>getState\<close> of the view answers \<open>null\<close> for the cell \<open>null\<close>.\<close>

definition viewGetState :: "mxGraph \<Rightarrow> cell option \<Rightarrow> mxCellState option" where
  "viewGetState g co = (case co of None \<Rightarrow> None | Some c \<Rightarrow> getState g c)"

text \<open>
  The first part of the \<open>else\<close> branch of \<open>resize\<close>: the bounds follow the state.
  For an edge the assignment to \<open>this.bounds.x\<close> is not guarded, and throws when
  there are no bounds.
\<close>

definition resizeBounds :: "mxGraph \<Rightarrow> mxCellState \<Rightarrow> mxCellEditor \<Rightarrow> mxCellEditor completion" where
  "resizeBounds g st s =
     (if isEdge g (cell st) then
        (case bounds s of
           None \<Rightarrow> Throw TypeError s
         | Some b \<Rightarrow>
             Normal (s\<lparr>bounds := Some (b\<lparr>x := x (absoluteOffset st), y := y (absoluteOffset st),
                                          width := 0, height := 0\<rparr>)\<rparr>))
      else
        (case bounds s of
           None \<Rightarrow> Normal s
         | Some b \<Rightarrow>
             Normal (s\<lparr>bounds := Some (applyLabelPosition st
                        (b\<lparr>x := x st, y := y st, width := width st, height := height st\<rparr>))\<rparr>)))"

text \<open>The text written into the measuring div.\<close>

definition replaceChar :: "char \<Rightarrow> string \<Rightarrow> string \<Rightarrow> string" where
  "replaceChar ch rep v = concat (map (\<lambda>c. if c = ch then rep else [c]) v)"

definition measuredText :: "mxGraph \<Rightarrow> bool \<Rightarrow> string \<Rightarrow> string" where
  "measuredText g wrap v =
     (let v1 = (if (v \<noteq> [] \<and> last v = CHR 0x0A) \<or> v = [] then v @ ''&nbsp;'' else v);
          v2 = htmlEntities g v1;
          v3 = (if wrap then v2 else replaceChar (CHR '' '') ''&nbsp;'' v2)
      in replaceChar (CHR 0x0A) ''<br/>'' v3)"

text \<open>
  The size and the position of the textarea, from the measured size of the div
  \<open>d\<close> and the bounds \<open>b\<close>. The margin \<open>m\<close> is that of the text shape or comes
  from the alignment of the style, and is never \<open>null\<close>.
\<close>

definition placeTextarea ::
  "mxGraph \<Rightarrow> mxCellState \<Rightarrow> mxRectangle \<Rightarrow> mxTextDiv \<Rightarrow> mxTextarea \<Rightarrow> mxTextarea" where
  "placeTextarea g st b d ta =
     (let clip = isLabelClipped g (cell st);
          wrap = isWrapping g (cell st);
          ow0 = max (offsetWidth g d + 30) 40;
          oh0 = max (offsetHeight g d + 16) 20;
          ow = (if clip then min (width b - 4) ow0 else ow0);
          oh = (if clip then min (height b) oh0 else oh0);
          m = (case (case text_shape st of None \<Rightarrow> None | Some tx \<Rightarrow> margin tx) of
                 Some m' \<Rightarrow> m'
               | None \<Rightarrow>
                   getAlignmentAsPoint g (getValue (align (style st)) ALIGN_CENTER)
                     (getValue (verticalAlign (style st)) ALIGN_MIDDLE));
          ta1 = (if clip \<or> \<not> wrap
                 then ta\<lparr>css_left :=
                        Some (max 0 (of_int (js_round (x b - x m * width b + x m * ow)) - 3))\<rparr>
                 else ta);
          ta2 = ta1\<lparr>css_top :=
                        Some (max 0 (of_int (js_round (y b - y m * height b + y m * oh)) + 4))\<rparr>;
          ta3 = (if clip \<or> \<not> wrap then ta2\<lparr>css_width := Some ow\<rparr> else ta2)
      in ta3\<lparr>css_height := Some oh\<rparr>)"

text \<open>
  The second part of the \<open>else\<close> branch of \<open>resize\<close>, for the text div \<open>d\<close>. Without
  a textarea the read of its value throws. Without bounds the first access to
  \<open>this.bounds\<close> throws: after the white space of the div is set when the label
  wraps, after its content is set otherwise.
\<close>

definition measureAndPlace ::
  "mxGraph \<Rightarrow> mxCellState \<Rightarrow> mxTextDiv \<Rightarrow> mxCellEditor \<Rightarrow> mxCellEditor completion" where
  "measureAndPlace g st d s =
     (case textarea s of
        None \<Rightarrow> Throw TypeError s
      | Some ta \<Rightarrow>
          (let wrap = isWrapping g (cell st);
               html = measuredText g wrap (tvalue ta)
           in if wrap then
                (case bounds s of
                   None \<Rightarrow> Throw TypeError (s\<lparr>textDiv := Some (d\<lparr>css_whiteSpace := ''normal''\<rparr>)\<rparr>)
                 | Some b \<Rightarrow>
                     (let d1 = d\<lparr>css_whiteSpace := ''normal'', css_width := Some (width b),
                                  innerHTML := html\<rparr>
                      in Normal (s\<lparr>textDiv := Some d1,
                                   textarea := Some (placeTextarea g st b d1 ta)\<rparr>)))
              else
                (let d1 = d\<lparr>innerHTML := html\<rparr>
                 in case bounds s of
                      None \<Rightarrow> Throw TypeError (s\<lparr>textDiv := Some d1\<rparr>)
                    | Some b \<Rightarrow>
                        Normal (s\<lparr>textDiv := Some d1,
                                  textarea := Some (placeTextarea g st b d1 ta)\<rparr>))))"

definition resize :: "mxGraph \<Rightarrow> mxCellEditor \<Rightarrow> mxCellEditor completion" where
  "resize g s =
     (case textDiv s of
        None \<Rightarrow> Normal s
      | Some d \<Rightarrow>
          (case viewGetState g (editingCell s) of
             None \<Rightarrow> stopEditing True s
           | Some st \<Rightarrow> andThen (resizeBounds g st s) (measureAndPlace g st d)))"

subsection \<open>\<open>startEditing\<close>\<close>

definition createTextDiv :: "mxGraph \<Rightarrow> mxTextarea \<Rightarrow> mxTextDiv" where
  "createTextDiv g ta =
     \<lparr>css_fontSize = css_fontSize ta, css_lineHeight = css_lineHeight ta,
      css_fontFamily = css_fontFamily ta, css_fontWeight = css_fontWeight ta,
      css_textAlign = css_textAlign ta, css_fontStyle = css_fontStyle ta,
      css_textDecoration = css_textDecoration ta, css_width = None,
      css_whiteSpace = ''nowrap'', css_visibility = ''hidden'',
      css_div_display = (if IS_QUIRKS g then ''inline'' else ''inline-block''),
      innerHTML = []\<rparr>"

text \<open>The style of the in-place editor, from the style of the state.\<close>

definition configureTextarea :: "mxGraph \<Rightarrow> mxCellState \<Rightarrow> mxTextarea \<Rightarrow> mxTextarea" where
  "configureTextarea g st ta =
     (let sz = getValue (fontSize (style st)) (DEFAULT_FONTSIZE g) * scale g;
          family = getValue (fontFamily (style st)) (DEFAULT_FONTFAMILY g);
          color = getValue (fontColor (style st)) ''black'';
          al = getValue (align (style st)) ALIGN_LEFT;
          bold = (getValue (fontStyle (style st)) 0 AND FONT_BOLD g = FONT_BOLD g);
          italic = (getValue (fontStyle (style st)) 0 AND FONT_ITALIC g = FONT_ITALIC g);
          uline = (getValue (fontStyle (style st)) 0 AND FONT_UNDERLINE g = FONT_UNDERLINE g)
      in ta\<lparr>css_fontSize := Some (js_round sz),
            css_lineHeight := Some (js_round (sz * LINE_HEIGHT g)),
            css_fontFamily := family,
            css_textAlign := al,
            css_color := color,
            css_fontWeight := (if bold then ''bold'' else ''normal''),
            css_fontStyle := (if italic then ''italic'' else []),
            css_textDecoration := (if uline then ''underline'' else [])\<rparr>)"

text \<open>The label of the state is hidden while the cell is edited.\<close>

definition hideLabel :: "mxCellState \<Rightarrow> mxCellEditor \<Rightarrow> mxCellEditor" where
  "hideLabel st s =
     (case text_shape st of
        None \<Rightarrow> s
      | Some tx \<Rightarrow>
          if isHideLabel st
          then s\<lparr>textNode := Node (node tx), visibility := (visibility s)(node tx \<mapsto> ''hidden'')\<rparr>
          else s)"

text \<open>
  The end of \<open>startEditing\<close>, when the textarea is displayed: the text div is
  created and the textarea resized if \<open>autoSize\<close> is set, then the textarea gets the
  focus and its text is selected (on iOS by a deferred callback).
\<close>

definition focusTextarea :: "mxGraph \<Rightarrow> mxCellEditor \<Rightarrow> mxCellEditor completion" where
  "focusTextarea g s =
     (case textarea s of
        None \<Rightarrow> Throw TypeError s
      | Some ta \<Rightarrow>
          (let s1 = s\<lparr>textarea := Some (ta\<lparr>focused := True\<rparr>)\<rparr>
           in if selectText s1 then
                (if IS_IOS g then Normal (s1\<lparr>selectTimers := selectTimers s1 + 1\<rparr>)
                 else Normal (s1\<lparr>textarea := Some (ta\<lparr>focused := True, selected := True\<rparr>)\<rparr>))
              else Normal s1))"

definition showTextarea :: "mxGraph \<Rightarrow> mxTextarea \<Rightarrow> mxCellEditor \<Rightarrow> mxCellEditor completion" where
  "showTextarea g ta s =
     (if css_display ta \<noteq> ''none'' then
        andThen
          (if autoSize s then resize g (s\<lparr>textDiv := Some (createTextDiv g ta)\<rparr>) else Normal s)
          (focusTextarea g)
      else Normal s)"

text \<open>The body of \<open>if (state != null)\<close> in \<open>startEditing\<close>.\<close>

definition beginEditing ::
  "mxGraph \<Rightarrow> cell \<Rightarrow> mouse_event option \<Rightarrow> mxCellState \<Rightarrow> mxCellEditor \<Rightarrow>
   mxCellEditor completion" where
  "beginEditing g c trg st s =
     (let s1 = hideLabel st (s\<lparr>editingCell := Some c, trigger := trg, textNode := Null\<rparr>)
      in case textarea s1 of
           None \<Rightarrow> Throw TypeError s1
         | Some ta0 \<Rightarrow>
             (let ta1 = configureTextarea g st ta0;
                  s2 = s1\<lparr>textarea := Some ta1\<rparr>
              in case getEditorBounds g s2 st of
                   Inl e \<Rightarrow> Throw e s2
                 | Inr b \<Rightarrow>
                     (let ta2 = ta1\<lparr>css_left := Some (x b), css_top := Some (y b),
                                     css_width := Some (width b), css_height := Some (height b)\<rparr>;
                          initial = getInitialValue g st trg;
                          isEmpty = (case initial of None \<Rightarrow> True | Some v \<Rightarrow> length v = 0);
                          v = (case initial of
                                 None \<Rightarrow> getEmptyLabelText s2
                               | Some v \<Rightarrow> if length v = 0 then getEmptyLabelText s2 else v);
                          ta3 = ta2\<lparr>tvalue := v, parentNode := True\<rparr>;
                          s3 = setModified False (s2\<lparr>bounds := Some b, clearOnChange := isEmpty\<rparr>)
                      in showTextarea g ta3 (s3\<lparr>textarea := Some ta3\<rparr>))))"

text \<open>
  \<open>startEditing\<close>: the textarea is created on first use, the running edit is
  stopped with \<open>stopEditing(true)\<close>, and the edit begins if the view has a state for
  the cell.
\<close>

definition startEditing ::
  "mxGraph \<Rightarrow> cell \<Rightarrow> mouse_event option \<Rightarrow> mxCellEditor \<Rightarrow> mxCellEditor completion" where
  "startEditing g c trg s =
     andThen (stopEditing True (if textarea s = None then init s else s))
       (\<lambda>s'. case getState g c of
                None \<Rightarrow> Normal s'
              | Some st \<Rightarrow> beginEditing g c trg st s')"

subsection \<open>\<open>destroy\<close>\<close>

definition destroy :: "mxCellEditor \<Rightarrow> mxCellEditor" where
  "destroy s =
     (case textarea s of
        None \<Rightarrow> s
      | Some ta \<Rightarrow> s\<lparr>textarea := None, changeHandler := False\<rparr>)"

subsection \<open>The listeners installed by \<open>init\<close>\<close>

text \<open>
  A key event with the fields the handler reads; \<open>consumed\<close> is
  \<open>mxEvent.isConsumed\<close>. The listeners of the textarea exist as long as the
  textarea does.
\<close>

record key_event =
  keyCode :: nat
  ctrlKey :: bool
  shiftKey :: bool
  consumed :: bool

text \<open>
  Modelled from the spec: \<open>mxGraph.stopEditing\<close>, which the key handler calls and
  which is not among the sources. The spec has \<open>stopEditing\<close> as the operation of
  the editor that the host uses to end an edit; the graph hands the call over to
  its editor.
\<close>

definition graph_stopEditing :: "bool \<Rightarrow> mxCellEditor \<Rightarrow> mxCellEditor completion" where
  "graph_stopEditing cancel s = stopEditing cancel s"

definition focusLost :: "mxGraph \<Rightarrow> mxCellEditor \<Rightarrow> mxCellEditor completion" where
  "focusLost g s = stopEditing (\<not> isInvokesStopCellEditing g) s"

definition onBlur :: "mxGraph \<Rightarrow> mxCellEditor \<Rightarrow> mxCellEditor completion" where
  "onBlur g s = (case textarea s of None \<Rightarrow> Normal s | Some ta \<Rightarrow> focusLost g s)"

definition onChange :: "mxCellEditor \<Rightarrow> mxCellEditor completion" where
  "onChange s = (case textarea s of None \<Rightarrow> Normal s | Some ta \<Rightarrow> Normal (setModified True s))"

text \<open>The keys that stop the edit: F2, or Enter without Control or Shift when Enter stops editing.\<close>

definition isStopKey :: "mxGraph \<Rightarrow> key_event \<Rightarrow> bool" where
  "isStopKey g evt \<longleftrightarrow>
     keyCode evt = 113 \<or>
     (isEnterStopsCellEditing g \<and> keyCode evt = 13 \<and> \<not> ctrlKey evt \<and> \<not> shiftKey evt)"

definition onKeyDown :: "mxGraph \<Rightarrow> key_event \<Rightarrow> mxCellEditor \<Rightarrow> mxCellEditor completion" where
  "onKeyDown g evt s =
     (case textarea s of
        None \<Rightarrow> Normal s
      | Some ta \<Rightarrow>
          if \<not> consumed evt then
            (if isStopKey g evt then graph_stopEditing False s
             else if keyCode evt = 27 then graph_stopEditing True s
             else
               Normal (setModified True
                 (if clearOnChange s
                  then s\<lparr>clearOnChange := False, textarea := Some (ta\<lparr>tvalue := []\<rparr>)\<rparr>
                  else s)))
          else Normal s)"

definition changeHandler_fn :: "mxGraph \<Rightarrow> mxCellEditor \<Rightarrow> mxCellEditor completion" where
  "changeHandler_fn g s =
     (if editingCell s \<noteq> None \<and> viewGetState g (editingCell s) = None
      then stopEditing True s else Normal s)"

text \<open>A change of the model reaches the handler while it is registered.\<close>

definition onModelChange :: "mxGraph \<Rightarrow> mxCellEditor \<Rightarrow> mxCellEditor completion" where
  "onModelChange g s = (if changeHandler s then changeHandler_fn g s else Normal s)"

text \<open>The input listener defers \<open>resize\<close> with \<open>setTimeout\<close>; the argument is \<open>mxEvent.isConsumed\<close>.\<close>

definition onInput :: "bool \<Rightarrow> mxCellEditor \<Rightarrow> mxCellEditor completion" where
  "onInput isConsumed s =
     (case textarea s of
        None \<Rightarrow> Normal s
      | Some ta \<Rightarrow>
          if autoSize s \<and> \<not> isConsumed then Normal (s\<lparr>resizeTimers := resizeTimers s + 1\<rparr>)
          else Normal s)"

definition onResizeTimeout :: "mxGraph \<Rightarrow> mxCellEditor \<Rightarrow> mxCellEditor completion" where
  "onResizeTimeout g s =
     (if resizeTimers s > 0 then resize g (s\<lparr>resizeTimers := resizeTimers s - 1\<rparr>) else Normal s)"

definition onSelectTimeout :: "mxCellEditor \<Rightarrow> mxCellEditor completion" where
  "onSelectTimeout s =
     (if selectTimers s > 0 then
        (let s1 = s\<lparr>selectTimers := selectTimers s - 1\<rparr>
         in case textarea s1 of
              None \<Rightarrow> Throw TypeError s1
            | Some ta \<Rightarrow> Normal (s1\<lparr>textarea := Some (ta\<lparr>selected := True\<rparr>)\<rparr>))
      else Normal s)"

subsection \<open>Runs of the editor\<close>

text \<open>
  What can happen to an editor: the host calls one of its methods or sets one of
  its configuration fields, the textarea or the model fires an event, or a
  deferred callback runs.
\<close>

datatype editor_op =
    StartEditing cell "mouse_event option"
  | StopEditing bool
  | Resize
  | SetModified bool
  | Destroy
  | SetAutoSize bool
  | SetSelectText bool
  | SetEmptyLabelText string
  | KeyDown key_event
  | Blur
  | Change
  | Input bool
  | ModelChange
  | ResizeTimeout
  | SelectTimeout

fun exec :: "mxGraph \<Rightarrow> editor_op \<Rightarrow> mxCellEditor \<Rightarrow> mxCellEditor completion" where
  "exec g (StartEditing c trg) s = startEditing g c trg s"
| "exec g (StopEditing cancel) s = stopEditing cancel s"
| "exec g Resize s = resize g s"
| "exec g (SetModified v) s = Normal (setModified v s)"
| "exec g Destroy s = Normal (destroy s)"
| "exec g (SetAutoSize v) s = Normal (s\<lparr>autoSize := v\<rparr>)"
| "exec g (SetSelectText v) s = Normal (s\<lparr>selectText := v\<rparr>)"
| "exec g (SetEmptyLabelText v) s = Normal (s\<lparr>emptyLabelText := v\<rparr>)"
| "exec g (KeyDown evt) s = onKeyDown g evt s"
| "exec g Blur s = onBlur g s"
| "exec g Change s = onChange s"
| "exec g (Input isConsumed) s = onInput isConsumed s"
| "exec g ModelChange s = onModelChange g s"
| "exec g ResizeTimeout s = onResizeTimeout g s"
| "exec g SelectTimeout s = onSelectTimeout s"

text \<open>
  The states an editor can be in: those of a new editor, and those after any
  operation, in any graph, on a state it can be in (also after an operation that
  threw).
\<close>

inductive reachable :: "mxCellEditor \<Rightarrow> bool" where
  reachable_new: "reachable (new_mxCellEditor vis)"
| reachable_exec: "reachable s \<Longrightarrow> reachable (state_of (exec g ev s))"

text \<open>
  A run of operations, each in the graph as it is when the operation happens,
  stops at the first operation that throws.
\<close>

fun run :: "(mxGraph \<times> editor_op) list \<Rightarrow> mxCellEditor \<Rightarrow> mxCellEditor completion" where
  "run [] s = Normal s"
| "run (gev # evs) s = andThen (exec (fst gev) (snd gev) s) (run evs)"

text \<open>
  The facts about the fields that hold in every state of a run: a text div exists
  only during an edit; during an edit the field \<open>textNode\<close> is not the string of
  the prototype, the bounds exist and the textarea, if it exists, is attached; and
  the change handler is registered as long as the textarea exists.
\<close>

definition editor_inv :: "mxCellEditor \<Rightarrow> bool" where
  "editor_inv s \<longleftrightarrow>
     (textDiv s \<noteq> None \<longrightarrow> editingCell s \<noteq> None) \<and>
     (editingCell s \<noteq> None \<longrightarrow> textNode s \<noteq> EmptyString \<and> bounds s \<noteq> None) \<and>
     (editingCell s \<noteq> None \<longrightarrow> (\<forall>ta. textarea s = Some ta \<longrightarrow> parentNode ta)) \<and>
     (textarea s \<noteq> None \<longrightarrow> changeHandler s)"

text \<open>
  A keystroke modifies the text when the key handler reaches its last branch: the
  event is not consumed and the key is neither a stop key nor Escape.
\<close>

definition isModifyingKey :: "mxGraph \<Rightarrow> key_event \<Rightarrow> bool" where
  "isModifyingKey g evt \<longleftrightarrow> \<not> consumed evt \<and> \<not> isStopKey g evt \<and> keyCode evt \<noteq> 27"

text \<open>
  The operations that neither begin an edit nor destroy the editor, and among them
  those that are not a modifying keystroke.
\<close>

fun withinSession :: "mxGraph \<times> editor_op \<Rightarrow> bool" where
  "withinSession (g, StartEditing c trg) = False"
| "withinSession (g, Destroy) = False"
| "withinSession (g, ev) = True"

fun beforeFirstKey :: "mxGraph \<times> editor_op \<Rightarrow> bool" where
  "beforeFirstKey (g, KeyDown evt) = (\<not> isModifyingKey g evt)"
| "beforeFirstKey (g, ev) = withinSession (g, ev)"

subsection \<open>A small diagram\<close>

text \<open>
  Two vertices, cells 1 and 2, of 100 by 40 at (10, 20), with an empty style and a
  rendered label without bounding box. The label of cell 1 contains a carriage
  return and a line feed, cell 2 has no label. The view is at scale 1.
\<close>

definition ex_style :: mxStyle where
  "ex_style =
     \<lparr>fontSize = None, fontFamily = None, fontColor = None, align = None,
      verticalAlign = None, fontStyle = None, spacing = None, spacingTop = None,
      spacingRight = None, spacingBottom = None, spacingLeft = None,
      labelPosition = None, verticalLabelPosition = None\<rparr>"

definition ex_state :: "cell \<Rightarrow> mxCellState" where
  "ex_state c =
     \<lparr>x = 10, y = 20, width = 100, height = 40, cell = c,
      absoluteOffset = \<lparr>x = 0, y = 0\<rparr>, style = ex_style,
      text_shape = Some \<lparr>node = c, boundingBox = None, margin = None, size_pt = 12\<rparr>\<rparr>"

definition ex_graph :: mxGraph where
  "ex_graph =
     \<lparr>getState = (\<lambda>c. if c = 1 \<or> c = 2 then Some (ex_state c) else None),
      scale = 1,
      isEdge = (\<lambda>c. False),
      isVertex = (\<lambda>c. True),
      getEditingValue =
        (\<lambda>c trg. if c = 1 then Some [CHR ''a'', CHR 0x0D, CHR 0x0A, CHR ''b''] else None),
      isLabelClipped = (\<lambda>c. False),
      isWrapping = (\<lambda>c. False),
      isEnterStopsCellEditing = False,
      isInvokesStopCellEditing = False,
      DEFAULT_FONTSIZE = 11,
      DEFAULT_FONTFAMILY = ''Arial,Helvetica'',
      LINE_HEIGHT = 12 / 10,
      FONT_BOLD = 1,
      FONT_ITALIC = 2,
      FONT_UNDERLINE = 4,
      IS_IOS = False,
      IS_QUIRKS = False,
      getAlignmentAsPoint =
        (\<lambda>al val.
           \<lparr>x = (if al = ALIGN_CENTER then - 1 / 2 else if al = ALIGN_RIGHT then - 1 else 0),
            y = (if val = ALIGN_MIDDLE then - 1 / 2 else if val = ALIGN_BOTTOM then - 1 else 0)\<rparr>),
      htmlEntities = (\<lambda>v. v),
      offsetWidth = (\<lambda>d. 24),
      offsetHeight = (\<lambda>d. 14)\<rparr>"

text \<open>The same diagram zoomed out, and after its cells were deleted.\<close>

definition ex_graph_half :: mxGraph where
  "ex_graph_half = ex_graph\<lparr>scale := 1 / 2\<rparr>"

definition ex_graph_gone :: mxGraph where
  "ex_graph_gone = ex_graph\<lparr>getState := (\<lambda>c. None)\<rparr>"

text \<open>
  Runs of a new editor in this diagram: cell 1 is being edited; then a key (A) has
  been typed; then the edit has been stopped, or the editor has been destroyed
  instead. In an editor whose empty label text was set to \<open>Type here\<close>, cell 2 is
  being edited. The last one edits cell 1 in an editor whose \<open>autoSize\<close> was
  switched off.
\<close>

definition ex_key :: key_event where
  "ex_key = \<lparr>keyCode = 65, ctrlKey = False, shiftKey = False, consumed = False\<rparr>"

definition ex_new :: mxCellEditor where
  "ex_new = new_mxCellEditor Map.empty"

definition ex_editing :: mxCellEditor where
  "ex_editing = state_of (exec ex_graph (StartEditing 1 (Some 7)) ex_new)"

definition ex_typed :: mxCellEditor where
  "ex_typed = state_of (exec ex_graph (KeyDown ex_key) ex_editing)"

definition ex_stopped :: mxCellEditor where
  "ex_stopped = state_of (exec ex_graph (StopEditing False) ex_typed)"

definition ex_destroyed :: mxCellEditor where
  "ex_destroyed = state_of (exec ex_graph Destroy ex_typed)"

definition ex_placeholder :: mxCellEditor where
  "ex_placeholder = state_of (exec ex_graph (SetEmptyLabelText ''Type here'') ex_new)"

definition ex_empty :: mxCellEditor where
  "ex_empty = state_of (exec ex_graph (StartEditing 2 None) ex_placeholder)"

definition ex_manual :: mxCellEditor where
  "ex_manual =
     state_of (exec ex_graph (StartEditing 1 (Some 7))
       (state_of (exec ex_graph (SetAutoSize False) ex_new)))"

section \<open>Properties of the bouncing balls example\<close>

lemma filterInPlace_loop_inv:
  "removed \<le> i \<Longrightarrow> i \<le> length arr \<Longrightarrow>
   filterInPlace_loop cond arr i removed = (arr', r') \<Longrightarrow>
   length arr' = length arr \<and>
   take (length arr - r') arr' = take (i - removed) arr @ filter cond (drop i arr)"
proof (induction cond arr i removed arbitrary: arr' r' rule: filterInPlace_loop.induct)
  case (1 cond arr i removed)
  show ?case
  proof (cases "i < length arr")
    case False
    with "1.prems"(3) have "arr' = arr" "r' = removed"
      by (simp_all add: filterInPlace_loop.simps [of cond arr i removed])
    with False "1.prems"(2) show ?thesis by simp
  next
    case inside: True
    have dropi: "drop i arr = arr ! i # drop (Suc i) arr"
      using inside by (simp add: Cons_nth_drop_Suc)
    show ?thesis
    proof (cases "cond (arr ! i)")
      case False
      with inside "1.prems" have
        run: "filterInPlace_loop cond arr (i + 1) (removed + 1) = (arr', r')"
        by (simp add: filterInPlace_loop.simps [of cond arr i removed])
      have "length arr' = length arr \<and>
            take (length arr - r') arr' =
              take (i + 1 - (removed + 1)) arr @ filter cond (drop (i + 1) arr)"
        using inside False "1.prems"(1) by (intro "1.IH"(1) [OF inside _ _ _ run]) simp_all
      then show ?thesis using False dropi by simp
    next
      case keep: True
      define arr2 where "arr2 = (if removed > 0 then arr[i - removed := arr ! i] else arr)"
      from keep inside "1.prems" have
        run: "filterInPlace_loop cond arr2 (i + 1) removed = (arr', r')"
        by (simp add: arr2_def filterInPlace_loop.simps [of cond arr i removed])
      have len2: "length arr2 = length arr" by (simp add: arr2_def)
      have "length arr' = length arr2 \<and>
            take (length arr2 - r') arr' =
              take (i + 1 - removed) arr2 @ filter cond (drop (i + 1) arr2)"
        unfolding arr2_def
        using inside keep "1.prems"(1)
        by (intro "1.IH"(2) [OF inside _ _ _ run [unfolded arr2_def]]) simp_all
      then have ih: "length arr' = length arr"
        "take (length arr - r') arr' =
           take (i + 1 - removed) arr2 @ filter cond (drop (i + 1) arr2)"
        by (simp_all add: len2)
      have drop2: "drop (Suc i) arr2 = drop (Suc i) arr"
        by (simp add: arr2_def)
      have take2: "take (Suc i - removed) arr2 = take (i - removed) arr @ [arr ! i]"
      proof (cases "removed > 0")
        case True
        have lt: "i - removed < length arr" using inside by simp
        have "take (Suc (i - removed)) (arr[i - removed := arr ! i]) =
              take (i - removed) (arr[i - removed := arr ! i]) @ [arr[i - removed := arr ! i] ! (i - removed)]"
          using lt by (simp add: take_Suc_conv_app_nth)
        also have "\<dots> = take (i - removed) arr @ [arr ! i]"
          using lt by simp
        finally show ?thesis
          using True "1.prems"(1) by (simp add: arr2_def Suc_diff_le)
      next
        case False
        then show ?thesis
          using inside by (simp add: arr2_def take_Suc_conv_app_nth)
      qed
      show ?thesis
        by (simp add: ih drop2 take2 dropi keep)
    qed
  qed
qed

text \<open>
  C9. For every array and every predicate, \<open>filterInPlace\<close> leaves in the array
  exactly the elements of the original array that satisfy the predicate, in their
  original order: its result is that of the non-mutating \<open>filter\<close>.
\<close>

theorem filterInPlace_eq_filter:
  "filterInPlace cond arr = filter cond arr"
proof -
  obtain arr' r' where run: "filterInPlace_loop cond arr 0 0 = (arr', r')"
    by (cases "filterInPlace_loop cond arr 0 0")
  have "length arr' = length arr \<and>
        take (length arr - r') arr' = take (0 - 0) arr @ filter cond (drop 0 arr)"
    by (rule filterInPlace_loop_inv [OF _ _ run]) simp_all
  then show ?thesis by (simp add: filterInPlace_def run)
qed














section \<open>Properties of the cell editor\<close>

subsection \<open>The facts that hold in every state of a run\<close>

lemma stopEditing_idle: "editingCell s = None \<Longrightarrow> stopEditing cancel s = Normal s"
  by (simp add: stopEditing_def)

lemma stopEditing_inv: "editor_inv s \<Longrightarrow> editor_inv (state_of (stopEditing cancel s))"
  by (auto simp: editor_inv_def stopEditing_def showLabel_def applyValue_def releaseEditor_def
      getCurrentValue_def isModified_def Let_def
      split: option.splits textNode_ref.splits sum.splits if_splits)

lemma resizeBounds_inv: "editor_inv s \<Longrightarrow> editor_inv (state_of (resizeBounds g st s))"
  by (auto simp: editor_inv_def resizeBounds_def split: option.splits)

lemma placeTextarea_parentNode: "parentNode (placeTextarea g st b d ta) = parentNode ta"
  by (simp add: placeTextarea_def Let_def)

lemma measureAndPlace_inv:
  "editor_inv s \<Longrightarrow> textDiv s \<noteq> None \<Longrightarrow> editor_inv (state_of (measureAndPlace g st d s))"
  by (auto simp: editor_inv_def measureAndPlace_def placeTextarea_parentNode Let_def split: option.splits)

lemma resizeBounds_textDiv: "textDiv (state_of (resizeBounds g st s)) = textDiv s"
  by (auto simp: resizeBounds_def split: option.splits)

lemma state_of_andThen_inv:
  "P (state_of r) \<Longrightarrow> (\<And>s. r = Normal s \<Longrightarrow> P (state_of (f s))) \<Longrightarrow> P (state_of (andThen r f))"
  by (cases r) simp_all

lemma resize_inv: "editor_inv s \<Longrightarrow> editor_inv (state_of (resize g s))"
proof (cases "textDiv s")
  case None
  then show "editor_inv s \<Longrightarrow> ?thesis" by (simp add: resize_def)
next
  case (Some d)
  assume inv: "editor_inv s"
  show ?thesis
  proof (cases "viewGetState g (editingCell s)")
    case None
    with Some inv show ?thesis by (simp add: resize_def stopEditing_inv)
  next
    case st: (Some st)
    have "editor_inv (state_of (andThen (resizeBounds g st s) (measureAndPlace g st d)))"
    proof (rule state_of_andThen_inv [where P = editor_inv])
      show "editor_inv (state_of (resizeBounds g st s))" using inv by (rule resizeBounds_inv)
    next
      fix s' assume eq: "resizeBounds g st s = Normal s'"
      then have "editor_inv s'" "textDiv s' \<noteq> None"
        using resizeBounds_inv [OF inv, of g st] resizeBounds_textDiv [of g st s] Some by simp_all
      then show "editor_inv (state_of (measureAndPlace g st d s'))" by (rule measureAndPlace_inv)
    qed
    with Some st show ?thesis by (simp add: resize_def)
  qed
qed

lemma focusTextarea_inv: "editor_inv s \<Longrightarrow> editor_inv (state_of (focusTextarea g s))"
  by (auto simp: editor_inv_def focusTextarea_def Let_def split: option.splits)

lemma showTextarea_inv:
  "editor_inv s \<Longrightarrow> editingCell s \<noteq> None \<Longrightarrow> editor_inv (state_of (showTextarea g ta s))"
proof -
  assume inv: "editor_inv s" and ed: "editingCell s \<noteq> None"
  have inv': "editor_inv (s\<lparr>textDiv := Some (createTextDiv g ta)\<rparr>)"
    using inv ed by (simp add: editor_inv_def)
  have "editor_inv (state_of (andThen
          (if autoSize s then resize g (s\<lparr>textDiv := Some (createTextDiv g ta)\<rparr>) else Normal s)
          (focusTextarea g)))"
  proof (rule state_of_andThen_inv [where P = editor_inv])
    show "editor_inv (state_of (if autoSize s then resize g (s\<lparr>textDiv := Some (createTextDiv g ta)\<rparr>) else Normal s))"
      using inv resize_inv [OF inv'] by simp
  next
    fix s' assume "(if autoSize s then resize g (s\<lparr>textDiv := Some (createTextDiv g ta)\<rparr>) else Normal s) = Normal s'"
    then have "editor_inv s'"
      using inv resize_inv [OF inv', of g] by (auto split: if_splits)
    then show "editor_inv (state_of (focusTextarea g s'))" by (rule focusTextarea_inv)
  qed
  then show ?thesis using inv by (simp add: showTextarea_def)
qed

lemma getEditorBounds_Inr:
  "textarea s \<noteq> None \<Longrightarrow> \<exists>b. getEditorBounds g s st = Inr b"
  by (auto simp: getEditorBounds_def getMinimumSize_def Let_def)

lemma hideLabel_fields:
  "textarea (hideLabel st s) = textarea s" "editingCell (hideLabel st s) = editingCell s"
  "textDiv (hideLabel st s) = textDiv s" "bounds (hideLabel st s) = bounds s"
  "changeHandler (hideLabel st s) = changeHandler s"
  "textNode s \<noteq> EmptyString \<Longrightarrow> textNode (hideLabel st s) \<noteq> EmptyString"
  by (simp_all add: hideLabel_def split: option.splits)

lemma beginEditing_inv:
  assumes "editor_inv s" "textarea s \<noteq> None" "textDiv s = None"
  shows "editor_inv (state_of (beginEditing g c trg st s))"
proof -
  obtain ta0 where ta0: "textarea s = Some ta0" using assms(2) by auto
  define s1 where "s1 = hideLabel st (s\<lparr>editingCell := Some c, trigger := trg, textNode := Null\<rparr>)"
  define s2 where "s2 = s1\<lparr>textarea := Some (configureTextarea g st ta0)\<rparr>"
  have t1: "textarea s1 = Some ta0" by (simp add: s1_def hideLabel_fields ta0)
  obtain b where b: "getEditorBounds g s2 st = Inr b"
    using getEditorBounds_Inr [of s2 g st] by (auto simp: s2_def)
  have s1f: "editingCell s1 = Some c" "textDiv s1 = None" "changeHandler s1" "textNode s1 \<noteq> EmptyString"
    using assms ta0 by (simp_all add: s1_def hideLabel_fields editor_inv_def)
  from b have b': "getEditorBounds g (s1\<lparr>textarea := Some (configureTextarea g st ta0)\<rparr>) st = Inr b"
    by (simp add: s2_def)
  show ?thesis
    unfolding beginEditing_def Let_def s1_def [symmetric]
    apply (simp only: t1 option.case)
    apply (simp only: b' sum.case)
    apply (rule showTextarea_inv)
     apply (simp_all add: editor_inv_def setModified_def s1f)
    done
qed

lemma startEditing_inv:
  assumes inv: "editor_inv s"
  shows "editor_inv (state_of (startEditing g c trg s))"
proof -
  define s0 where "s0 = (if textarea s = None then init s else s)"
  have s0: "textarea s0 \<noteq> None" "changeHandler s0" "textNode s0 \<noteq> EmptyString \<or> editingCell s0 = None"
    "textDiv s0 \<noteq> None \<longrightarrow> editingCell s0 \<noteq> None"
    "editingCell s0 \<noteq> None \<longrightarrow> bounds s0 \<noteq> None"
    using inv by (auto simp: s0_def init_def editor_inv_def)
  have stop: "editor_inv (state_of (stopEditing True s0))"
    using s0 by (auto simp: editor_inv_def stopEditing_def showLabel_def applyValue_def
      releaseEditor_def Let_def split: option.splits textNode_ref.splits)
  have "editor_inv (state_of (andThen (stopEditing True s0)
       (\<lambda>s'. case getState g c of None \<Rightarrow> Normal s' | Some st \<Rightarrow> beginEditing g c trg st s')))"
  proof (rule state_of_andThen_inv [where P = editor_inv, OF stop])
    fix s' assume eq: "stopEditing True s0 = Normal s'"
    have inv': "editor_inv s'" using stop eq by simp
    have "editingCell s' = None" "textarea s' \<noteq> None"
      using eq s0 by (auto simp: stopEditing_def showLabel_def applyValue_def
      releaseEditor_def Let_def split: option.splits textNode_ref.splits if_splits)
    then have "textDiv s' = None" "textarea s' \<noteq> None" using inv' by (auto simp: editor_inv_def)
    then show "editor_inv (state_of (case getState g c of None \<Rightarrow> Normal s' | Some st \<Rightarrow> beginEditing g c trg st s'))"
      using inv' by (auto split: option.splits intro: beginEditing_inv)
  qed
  then show ?thesis by (simp add: startEditing_def s0_def)
qed

lemma exec_inv: "editor_inv s \<Longrightarrow> editor_inv (state_of (exec g ev s))"
proof (cases ev)
  case (StartEditing c trg) then show "editor_inv s \<Longrightarrow> ?thesis" by (simp add: startEditing_inv)
next
  case (StopEditing b) then show "editor_inv s \<Longrightarrow> ?thesis" by (simp add: stopEditing_inv)
next
  case Resize then show "editor_inv s \<Longrightarrow> ?thesis" by (simp add: resize_inv)
next
  case (SetModified b) then show "editor_inv s \<Longrightarrow> ?thesis" by (simp add: setModified_def editor_inv_def)
next
  case Destroy then show "editor_inv s \<Longrightarrow> ?thesis"
    by (auto simp: destroy_def editor_inv_def split: option.splits)
next
  case (SetAutoSize b) then show "editor_inv s \<Longrightarrow> ?thesis" by (simp add: editor_inv_def)
next
  case (SetSelectText b) then show "editor_inv s \<Longrightarrow> ?thesis" by (simp add: editor_inv_def)
next
  case (SetEmptyLabelText b) then show "editor_inv s \<Longrightarrow> ?thesis" by (simp add: editor_inv_def)
next
  case (KeyDown evt)
  assume inv: "editor_inv s"
  have "editor_inv (setModified True (if clearOnChange s
                  then s\<lparr>clearOnChange := False, textarea := Some (ta\<lparr>tvalue := []\<rparr>)\<rparr>
                  else s))" if "textarea s = Some ta" for ta
    using inv that by (auto simp: editor_inv_def setModified_def)
  then show ?thesis using KeyDown inv
    by (auto simp: onKeyDown_def graph_stopEditing_def stopEditing_inv split: option.splits)
next
  case Blur then show "editor_inv s \<Longrightarrow> ?thesis"
    by (auto simp: onBlur_def focusLost_def stopEditing_inv split: option.splits)
next
  case Change then show "editor_inv s \<Longrightarrow> ?thesis"
    by (auto simp: onChange_def setModified_def editor_inv_def split: option.splits)
next
  case (Input b) then show "editor_inv s \<Longrightarrow> ?thesis"
    by (auto simp: onInput_def editor_inv_def split: option.splits)
next
  case ModelChange then show "editor_inv s \<Longrightarrow> ?thesis"
    by (auto simp: onModelChange_def changeHandler_fn_def stopEditing_inv)
next
  case ResizeTimeout
  assume inv: "editor_inv s"
  have "editor_inv (s\<lparr>resizeTimers := resizeTimers s - 1\<rparr>)" using inv by (simp add: editor_inv_def)
  then show ?thesis using ResizeTimeout inv by (auto simp: onResizeTimeout_def resize_inv)
next
  case SelectTimeout then show "editor_inv s \<Longrightarrow> ?thesis"
    by (auto simp: onSelectTimeout_def editor_inv_def Let_def split: option.splits)
qed

lemma reachable_inv: "reachable s \<Longrightarrow> editor_inv s"
proof (induction rule: reachable.induct)
  case (reachable_new vis)
  show ?case by (simp add: editor_inv_def new_mxCellEditor_def)
next
  case (reachable_exec s g ev)
  then show ?case by (simp add: exec_inv)
qed

lemma reachable_session:
  assumes "reachable s" "editingCell s = Some c" "textarea s = Some ta"
  shows "textNode s \<noteq> EmptyString" "parentNode ta" "changeHandler s" "bounds s \<noteq> None"
  using reachable_inv [OF assms(1)] assms(2,3) by (auto simp: editor_inv_def)

subsection \<open>What \<open>resize\<close>, \<open>stopEditing\<close> and \<open>startEditing\<close> return\<close>

lemma placeTextarea_tvalue: "tvalue (placeTextarea g st b d ta) = tvalue ta"
  by (simp add: placeTextarea_def Let_def)

lemma frame_exI:
  "tvalue ta' = tvalue ta \<Longrightarrow> parentNode ta' = parentNode ta \<Longrightarrow>
   \<exists>b'' d'' ta''. s\<lparr>bounds := Some b', textDiv := Some d', textarea := Some ta'\<rparr> =
       s\<lparr>bounds := Some b'', textDiv := Some d'', textarea := Some ta''\<rparr> \<and>
       tvalue ta'' = tvalue ta \<and> parentNode ta'' = parentNode ta"
  by blast

lemma resize_present:
  assumes "textDiv s = Some d" "viewGetState g (editingCell s) = Some st"
    "bounds s = Some b" "textarea s = Some ta"
  shows "\<exists>b' d' ta'. resize g s = Normal (s\<lparr>bounds := Some b', textDiv := Some d', textarea := Some ta'\<rparr>)
           \<and> tvalue ta' = tvalue ta \<and> parentNode ta' = parentNode ta"
  using assms
  by (auto simp: resize_def resizeBounds_def measureAndPlace_def Let_def
      placeTextarea_tvalue placeTextarea_parentNode intro!: frame_exI)

lemma resize_absent: "textDiv s = None \<Longrightarrow> resize g s = Normal s"
  by (simp add: resize_def)

lemma resize_gone:
  "textDiv s \<noteq> None \<Longrightarrow> viewGetState g (editingCell s) = None \<Longrightarrow> resize g s = stopEditing True s"
  by (auto simp: resize_def)

lemma focusTextarea_result:
  assumes "textarea s = Some ta"
  shows "\<exists>ta' n. focusTextarea g s = Normal (s\<lparr>textarea := Some ta', selectTimers := n\<rparr>) \<and>
           tvalue ta' = tvalue ta \<and> parentNode ta' = parentNode ta"
proof -
  have *: "tvalue ta' = tvalue ta \<Longrightarrow> parentNode ta' = parentNode ta \<Longrightarrow>
     focusTextarea g s = Normal (s\<lparr>textarea := Some ta', selectTimers := n\<rparr>) \<Longrightarrow> ?thesis" for ta' n
    by blast
  show ?thesis
  proof (cases "selectText s \<and> IS_IOS g")
    case True
    show ?thesis
      by (rule * [of "ta\<lparr>focused := True\<rparr>" "selectTimers s + 1"])
        (simp_all add: focusTextarea_def Let_def assms True)
  next
    case False
    show ?thesis
      by (rule * [of "if selectText s then ta\<lparr>focused := True, selected := True\<rparr> else ta\<lparr>focused := True\<rparr>"
            "selectTimers s"])
        (use False in \<open>auto simp: focusTextarea_def Let_def assms\<close>)
  qed
qed

lemma showTextarea_result:
  assumes "textarea s = Some ta" "bounds s = Some b" "editingCell s = Some c"
    "getState g c = Some st"
  shows "\<exists>s' ta'. showTextarea g ta s = Normal s' \<and> textarea s' = Some ta' \<and>
      tvalue ta' = tvalue ta \<and> parentNode ta' = parentNode ta \<and>
      editingCell s' = Some c \<and> trigger s' = trigger s \<and> modified s' = modified s \<and>
      labelChanged s' = labelChanged s \<and> emptyLabelText s' = emptyLabelText s \<and>
      clearOnChange s' = clearOnChange s \<and> autoSize s' = autoSize s \<and>
      changeHandler s' = changeHandler s \<and> textNode s' = textNode s \<and>
      visibility s' = visibility s \<and> bounds s' \<noteq> None \<and>
      (autoSize s \<and> css_display ta \<noteq> ''none'' \<longrightarrow> textDiv s' \<noteq> None) \<and>
      (\<not> autoSize s \<longrightarrow> textDiv s' = textDiv s)"
proof (cases "css_display ta \<noteq> ''none''")
  case False
  then show ?thesis using assms by (simp add: showTextarea_def)
next
  case shown: True
  show ?thesis
  proof (cases "autoSize s")
    case False
    from focusTextarea_result [OF assms(1), of g] obtain ta' n where
      "focusTextarea g s = Normal (s\<lparr>textarea := Some ta', selectTimers := n\<rparr>)"
      "tvalue ta' = tvalue ta" "parentNode ta' = parentNode ta" by blast
    then show ?thesis using assms shown False by (simp add: showTextarea_def)
  next
    case True
    define s1 where "s1 = s\<lparr>textDiv := Some (createTextDiv g ta)\<rparr>"
    have "textDiv s1 = Some (createTextDiv g ta)" "viewGetState g (editingCell s1) = Some st"
      "bounds s1 = Some b" "textarea s1 = Some ta"
      using assms by (simp_all add: s1_def viewGetState_def)
    from resize_present [OF this] obtain b' d' ta' where
      r: "resize g s1 = Normal (s1\<lparr>bounds := Some b', textDiv := Some d', textarea := Some ta'\<rparr>)"
      and ta': "tvalue ta' = tvalue ta" "parentNode ta' = parentNode ta" by blast
    define s2 where "s2 = s1\<lparr>bounds := Some b', textDiv := Some d', textarea := Some ta'\<rparr>"
    have "textarea s2 = Some ta'" by (simp add: s2_def)
    from focusTextarea_result [OF this, of g] obtain ta'' n where
      f: "focusTextarea g s2 = Normal (s2\<lparr>textarea := Some ta'', selectTimers := n\<rparr>)"
      and ta'': "tvalue ta'' = tvalue ta'" "parentNode ta'' = parentNode ta'" by blast
    have "showTextarea g ta s = Normal (s2\<lparr>textarea := Some ta'', selectTimers := n\<rparr>)"
      using shown True r f by (simp add: showTextarea_def s1_def [symmetric] s2_def [symmetric])
    then show ?thesis using assms ta' ta'' True by (simp add: s2_def s1_def)
  qed
qed

lemma beginEditing_result:
  assumes ta0: "textarea s = Some ta0" and st: "getState g c = Some st"
  shows "\<exists>s' ta'. beginEditing g c trg st s = Normal s' \<and> textarea s' = Some ta' \<and>
      parentNode ta' \<and>
      tvalue ta' = (case getInitialValue g st trg of None \<Rightarrow> emptyLabelText s
                    | Some v \<Rightarrow> if v = [] then emptyLabelText s else v) \<and>
      clearOnChange s' = (case getInitialValue g st trg of None \<Rightarrow> True | Some v \<Rightarrow> v = []) \<and>
      editingCell s' = Some c \<and> trigger s' = trg \<and> \<not> modified s' \<and>
      labelChanged s' = labelChanged s \<and> emptyLabelText s' = emptyLabelText s \<and>
      textNode s' = (case text_shape st of None \<Rightarrow> Null | Some tx \<Rightarrow> Node (node tx)) \<and>
      (\<forall>tx. text_shape st = Some tx \<longrightarrow> visibility s' (node tx) = Some ''hidden'') \<and>
      autoSize s' = autoSize s \<and> changeHandler s' = changeHandler s \<and> bounds s' \<noteq> None \<and>
      (autoSize s \<and> css_display ta0 \<noteq> ''none'' \<longrightarrow> textDiv s' \<noteq> None) \<and>
      (\<not> autoSize s \<longrightarrow> textDiv s' = textDiv s)"
proof -
  define s1 where "s1 = hideLabel st (s\<lparr>editingCell := Some c, trigger := trg, textNode := Null\<rparr>)"
  define s2 where "s2 = s1\<lparr>textarea := Some (configureTextarea g st ta0)\<rparr>"
  have t1: "textarea s1 = Some ta0" by (simp add: s1_def hideLabel_fields ta0)
  obtain b where b: "getEditorBounds g s2 st = Inr b"
    using getEditorBounds_Inr [of s2 g st] by (auto simp: s2_def)
  from b have b': "getEditorBounds g (s1\<lparr>textarea := Some (configureTextarea g st ta0)\<rparr>) st = Inr b"
    by (simp add: s2_def)
  have s1f: "editingCell s1 = Some c" "textDiv s1 = textDiv s" "changeHandler s1 = changeHandler s"
    "trigger s1 = trg" "labelChanged s1 = labelChanged s" "emptyLabelText s1 = emptyLabelText s"
    "autoSize s1 = autoSize s"
    "textNode s1 = (case text_shape st of None \<Rightarrow> Null | Some tx \<Rightarrow> Node (node tx))"
    "\<forall>tx. text_shape st = Some tx \<longrightarrow> visibility s1 (node tx) = Some ''hidden''"
    by (simp_all add: s1_def hideLabel_def isHideLabel_def split: option.splits)
  have disp: "css_display (configureTextarea g st ta0) = css_display ta0"
    by (simp add: configureTextarea_def Let_def)
  have aux: "\<exists>s' ta'. showTextarea g ta3 s3 = Normal s' \<and> textarea s' = Some ta' \<and>
      parentNode ta' \<and>
      tvalue ta' = (case getInitialValue g st trg of None \<Rightarrow> emptyLabelText s
                    | Some v \<Rightarrow> if v = [] then emptyLabelText s else v) \<and>
      clearOnChange s' = (case getInitialValue g st trg of None \<Rightarrow> True | Some v \<Rightarrow> v = []) \<and>
      editingCell s' = Some c \<and> trigger s' = trg \<and> \<not> modified s' \<and>
      labelChanged s' = labelChanged s \<and> emptyLabelText s' = emptyLabelText s \<and>
      textNode s' = (case text_shape st of None \<Rightarrow> Null | Some tx \<Rightarrow> Node (node tx)) \<and>
      (\<forall>tx. text_shape st = Some tx \<longrightarrow> visibility s' (node tx) = Some ''hidden'') \<and>
      autoSize s' = autoSize s \<and> changeHandler s' = changeHandler s \<and> bounds s' \<noteq> None \<and>
      (autoSize s \<and> css_display ta0 \<noteq> ''none'' \<longrightarrow> textDiv s' \<noteq> None) \<and>
      (\<not> autoSize s \<longrightarrow> textDiv s' = textDiv s)"
    if "textarea s3 = Some ta3" "bounds s3 = Some b" "editingCell s3 = Some c"
      "parentNode ta3" "css_display ta3 = css_display ta0"
      "tvalue ta3 = (case getInitialValue g st trg of None \<Rightarrow> emptyLabelText s
                    | Some v \<Rightarrow> if v = [] then emptyLabelText s else v)"
      "clearOnChange s3 = (case getInitialValue g st trg of None \<Rightarrow> True | Some v \<Rightarrow> v = [])"
      "trigger s3 = trg" "\<not> modified s3" "labelChanged s3 = labelChanged s"
      "emptyLabelText s3 = emptyLabelText s" "autoSize s3 = autoSize s"
      "changeHandler s3 = changeHandler s" "textDiv s3 = textDiv s"
      "textNode s3 = (case text_shape st of None \<Rightarrow> Null | Some tx \<Rightarrow> Node (node tx))"
      "\<forall>tx. text_shape st = Some tx \<longrightarrow> visibility s3 (node tx) = Some ''hidden''"
    for ta3 s3
    using showTextarea_result [OF that(1,2,3) st] that(4-) by (elim exE conjE) simp
  show ?thesis
    unfolding beginEditing_def Let_def s1_def [symmetric]
    apply (simp only: t1 option.case)
    apply (simp only: b' sum.case)
    apply (rule aux)
    apply (simp_all add: s1f disp setModified_def getEmptyLabelText_def split: option.splits)
    done
qed

lemma stopEditing_result:
  assumes "editingCell s = Some c" "textNode s \<noteq> EmptyString" "textarea s = Some ta" "parentNode ta"
  shows "stopEditing cancel s =
    Normal (s\<lparr>visibility := (case textNode s of Node n \<Rightarrow> (visibility s)(n \<mapsto> ''visible'')
                               | _ \<Rightarrow> visibility s),
              textNode := Null,
              labelChanged := labelChanged s @
                 (if \<not> cancel \<and> isModified s
                  then [(c, filter (\<lambda>ch. ch \<noteq> CHR 0x0D) (tvalue ta), trigger s)] else []),
              textDiv := None, editingCell := None, trigger := None, bounds := None,
              textarea := Some (ta\<lparr>focused := False, parentNode := False\<rparr>)\<rparr>)"
  using assms
  by (cases "textNode s")
    (simp_all add: stopEditing_def showLabel_def applyValue_def releaseEditor_def
      getCurrentValue_def isModified_def Let_def)

lemma stopEditing_destroyed_throws:
  "editingCell s \<noteq> None \<Longrightarrow> textarea s = None \<Longrightarrow> throws (stopEditing cancel s)"
  by (auto simp: stopEditing_def showLabel_def applyValue_def releaseEditor_def
      getCurrentValue_def Let_def split: option.splits textNode_ref.splits)

lemma startEditing_result:
  assumes inv: "editor_inv s" and live: "editingCell s = None \<or> textarea s \<noteq> None"
    and st: "getState g c = Some st"
  shows "\<exists>s' ta'. startEditing g c trg s = Normal s' \<and> textarea s' = Some ta' \<and>
      parentNode ta' \<and>
      tvalue ta' = (case getInitialValue g st trg of None \<Rightarrow> emptyLabelText s
                    | Some v \<Rightarrow> if v = [] then emptyLabelText s else v) \<and>
      clearOnChange s' = (case getInitialValue g st trg of None \<Rightarrow> True | Some v \<Rightarrow> v = []) \<and>
      editingCell s' = Some c \<and> trigger s' = trg \<and> \<not> modified s' \<and>
      labelChanged s' = labelChanged s \<and> emptyLabelText s' = emptyLabelText s \<and>
      textNode s' = (case text_shape st of None \<Rightarrow> Null | Some tx \<Rightarrow> Node (node tx)) \<and>
      (\<forall>tx. text_shape st = Some tx \<longrightarrow> visibility s' (node tx) = Some ''hidden'') \<and>
      bounds s' \<noteq> None \<and>
      (autoSize s \<and> (\<forall>ta. textarea s = Some ta \<longrightarrow> css_display ta \<noteq> ''none'') \<longrightarrow> textDiv s' \<noteq> None) \<and>
      (\<not> autoSize s \<longrightarrow> textDiv s' = None)"
proof -
  define s0 where "s0 = (if textarea s = None then init s else s)"
  obtain ta0 where ta0: "textarea s0 = Some ta0"
    by (cases "textarea s") (auto simp: s0_def init_def)
  have disp: "css_display ta0 \<noteq> ''none''" if "\<forall>ta. textarea s = Some ta \<longrightarrow> css_display ta \<noteq> ''none''"
    using that ta0 by (cases "textarea s") (auto simp: s0_def init_def new_textarea_def)
  have "\<exists>s1 ta1. stopEditing True s0 = Normal s1 \<and> textarea s1 = Some ta1 \<and>
      css_display ta1 = css_display ta0 \<and> labelChanged s1 = labelChanged s \<and>
      emptyLabelText s1 = emptyLabelText s \<and> autoSize s1 = autoSize s \<and> textDiv s1 = None"
  proof (cases "editingCell s")
    case None
    then have "editingCell s0 = None" "textDiv s0 = None"
      using inv by (auto simp: s0_def init_def editor_inv_def)
    then show ?thesis using ta0 by (auto simp: stopEditing_def s0_def init_def)
  next
    case (Some c1)
    with live have s0s: "s0 = s" by (auto simp: s0_def)
    have "textNode s \<noteq> EmptyString" "parentNode ta0"
      using inv Some ta0 s0s by (auto simp: editor_inv_def)
    from stopEditing_result [OF Some this(1) ta0 [unfolded s0s] this(2), of True]
    show ?thesis by (simp add: s0s)
  qed
  then obtain s1 ta1 where s1: "stopEditing True s0 = Normal s1" "textarea s1 = Some ta1"
      "css_display ta1 = css_display ta0" "labelChanged s1 = labelChanged s"
      "emptyLabelText s1 = emptyLabelText s" "autoSize s1 = autoSize s" "textDiv s1 = None"
    by blast
  have eq: "startEditing g c trg s = beginEditing g c trg st s1"
    using s1(1) st by (simp add: startEditing_def s0_def)
  from beginEditing_result [OF s1(2) st, of trg] obtain s' ta' where
    r: "beginEditing g c trg st s1 = Normal s'" "textarea s' = Some ta'" "parentNode ta'"
      "tvalue ta' = (case getInitialValue g st trg of None \<Rightarrow> emptyLabelText s1
                    | Some v \<Rightarrow> if v = [] then emptyLabelText s1 else v)"
      "clearOnChange s' = (case getInitialValue g st trg of None \<Rightarrow> True | Some v \<Rightarrow> v = [])"
      "editingCell s' = Some c" "trigger s' = trg" "\<not> modified s'"
      "labelChanged s' = labelChanged s1" "emptyLabelText s' = emptyLabelText s1"
      "textNode s' = (case text_shape st of None \<Rightarrow> Null | Some tx \<Rightarrow> Node (node tx))"
      "\<forall>tx. text_shape st = Some tx \<longrightarrow> visibility s' (node tx) = Some ''hidden''"
      "bounds s' \<noteq> None"
      "autoSize s1 \<and> css_display ta1 \<noteq> ''none'' \<longrightarrow> textDiv s' \<noteq> None"
      "\<not> autoSize s1 \<longrightarrow> textDiv s' = textDiv s1"
    by blast
  show ?thesis
    unfolding eq
    apply (rule exI [of _ s'], rule exI [of _ ta'])
    using r s1 disp apply (simp split: option.splits)
    done
qed

lemma stopEditing_keeps:
  "clearOnChange (state_of (stopEditing cancel s)) = clearOnChange s"
  "textarea s = Some ta \<Longrightarrow> \<exists>ta'. textarea (state_of (stopEditing cancel s)) = Some ta'"
  "emptyLabelText (state_of (stopEditing cancel s)) = emptyLabelText s"
  by (auto simp: stopEditing_def showLabel_def applyValue_def releaseEditor_def Let_def
      split: option.splits textNode_ref.splits sum.splits)

lemma resize_keeps:
  "clearOnChange (state_of (resize g s)) = clearOnChange s"
  "textarea s = Some ta \<Longrightarrow> \<exists>ta'. textarea (state_of (resize g s)) = Some ta'"
  by (auto simp: resize_def stopEditing_keeps resizeBounds_def measureAndPlace_def Let_def
      split: option.splits)

lemma startEditing_Normal:
  assumes start: "startEditing g c trg s = Normal s1" and st: "getState g c = Some st"
  shows "\<exists>ta. textarea s1 = Some ta \<and>
      tvalue ta = (case getInitialValue g st trg of None \<Rightarrow> emptyLabelText s
                    | Some v \<Rightarrow> if v = [] then emptyLabelText s else v) \<and>
      clearOnChange s1 = (case getInitialValue g st trg of None \<Rightarrow> True | Some v \<Rightarrow> v = []) \<and>
      \<not> modified s1"
proof -
  define s0 where "s0 = (if textarea s = None then init s else s)"
  have t0: "textarea s0 \<noteq> None" "emptyLabelText s0 = emptyLabelText s"
    by (auto simp: s0_def init_def)
  obtain s' where stop: "stopEditing True s0 = Normal s'"
    using start by (cases "stopEditing True s0") (simp_all add: startEditing_def s0_def)
  have s': "textarea s' \<noteq> None" "emptyLabelText s' = emptyLabelText s"
    using stopEditing_keeps(2,3) [where s = s0 and cancel = True] t0 stop by auto
  then obtain ta0 where ta0: "textarea s' = Some ta0" by auto
  have eq: "beginEditing g c trg st s' = Normal s1"
    using start stop st by (simp add: startEditing_def s0_def)
  from beginEditing_result [OF ta0 st, of trg] show ?thesis
    unfolding eq using s'(2) by (auto split: option.splits)
qed

text \<open>The label that \<open>startEditing\<close> hides.\<close>

lemma beginEditing_visibility:
  assumes ta0: "textarea s = Some ta0" and st: "getState g c = Some st"
  shows "visibility (state_of (beginEditing g c trg st s)) =
     (case text_shape st of None \<Rightarrow> visibility s
      | Some tx \<Rightarrow> (visibility s)(node tx \<mapsto> ''hidden''))"
proof -
  define s1 where "s1 = hideLabel st (s\<lparr>editingCell := Some c, trigger := trg, textNode := Null\<rparr>)"
  define s2 where "s2 = s1\<lparr>textarea := Some (configureTextarea g st ta0)\<rparr>"
  have t1: "textarea s1 = Some ta0" by (simp add: s1_def hideLabel_fields ta0)
  obtain b where b: "getEditorBounds g s2 st = Inr b"
    using getEditorBounds_Inr [of s2 g st] by (auto simp: s2_def)
  from b have b': "getEditorBounds g (s1\<lparr>textarea := Some (configureTextarea g st ta0)\<rparr>) st = Inr b"
    by (simp add: s2_def)
  have s1f: "editingCell s1 = Some c"
    "visibility s1 = (case text_shape st of None \<Rightarrow> visibility s
      | Some tx \<Rightarrow> (visibility s)(node tx \<mapsto> ''hidden''))"
    by (simp_all add: s1_def hideLabel_def isHideLabel_def split: option.splits)
  have aux: "visibility (state_of (showTextarea g ta3 s3)) =
      (case text_shape st of None \<Rightarrow> visibility s
       | Some tx \<Rightarrow> (visibility s)(node tx \<mapsto> ''hidden''))"
    if "textarea s3 = Some ta3" "bounds s3 = Some b" "editingCell s3 = Some c"
      "visibility s3 = (case text_shape st of None \<Rightarrow> visibility s
         | Some tx \<Rightarrow> (visibility s)(node tx \<mapsto> ''hidden''))"
    for ta3 s3
    using showTextarea_result [OF that(1,2,3) st] that(4) by (elim exE conjE) simp
  show ?thesis
    unfolding beginEditing_def Let_def s1_def [symmetric]
    apply (simp only: t1 option.case)
    apply (simp only: b' sum.case)
    apply (rule aux)
    apply (simp_all add: s1f setModified_def)
    done
qed

text \<open>
  After \<open>destroy\<close> during an edit the textarea is \<open>null\<close> and the edit is still
  running: \<open>stopEditing\<close> then throws where it reads the textarea.
\<close>

lemma startEditing_destroyed_throws:
  assumes "editingCell s \<noteq> None" "textarea s = None" "textNode s \<noteq> EmptyString"
  shows "throws (startEditing g c trg s) \<and>
     editingCell (state_of (startEditing g c trg s)) = None \<and>
     labelChanged (state_of (startEditing g c trg s)) = labelChanged s"
  using assms
  by (auto simp: startEditing_def init_def new_textarea_def stopEditing_def showLabel_def
      applyValue_def releaseEditor_def Let_def split: textNode_ref.splits)

lemma stopEditing_False_destroyed:
  assumes "editingCell s = Some c" "textarea s = None" "textNode s \<noteq> EmptyString" "isModified s"
  shows "throws (stopEditing False s) \<and>
     labelChanged (state_of (stopEditing False s)) = labelChanged s \<and>
     editingCell (state_of (stopEditing False s)) = Some c"
  using assms
  by (auto simp: stopEditing_def showLabel_def applyValue_def getCurrentValue_def
      isModified_def split: textNode_ref.splits)

subsection \<open>The flag \<open>clearOnChange\<close> along a run\<close>

lemma exec_keeps_textarea:
  "withinSession (g, ev) \<Longrightarrow> textarea s \<noteq> None \<Longrightarrow> textarea (state_of (exec g ev s)) \<noteq> None"
  by (cases ev)
    (auto simp: stopEditing_keeps resize_keeps setModified_def onKeyDown_def graph_stopEditing_def onBlur_def
      focusLost_def onChange_def onInput_def onModelChange_def changeHandler_fn_def
      onResizeTimeout_def onSelectTimeout_def Let_def)

lemma exec_keeps_clearOnChange:
  "beforeFirstKey (g, ev) \<Longrightarrow> clearOnChange (state_of (exec g ev s)) = clearOnChange s"
  by (cases ev)
    (auto simp: stopEditing_keeps resize_keeps setModified_def onKeyDown_def graph_stopEditing_def onBlur_def
      focusLost_def onChange_def onInput_def onModelChange_def changeHandler_fn_def
      onResizeTimeout_def onSelectTimeout_def isModifyingKey_def Let_def split: option.splits)

lemma exec_keeps_cleared:
  "withinSession (g, ev) \<Longrightarrow> \<not> clearOnChange s \<Longrightarrow> \<not> clearOnChange (state_of (exec g ev s))"
  by (cases ev)
    (auto simp: stopEditing_keeps resize_keeps setModified_def onKeyDown_def graph_stopEditing_def onBlur_def
      focusLost_def onChange_def onInput_def onModelChange_def changeHandler_fn_def
      onResizeTimeout_def onSelectTimeout_def Let_def split: option.splits)

lemma beforeFirstKey_withinSession: "beforeFirstKey gev \<Longrightarrow> withinSession gev"
  by (cases gev, cases "snd gev") auto

lemma run_before:
  "list_all beforeFirstKey evs \<Longrightarrow>
   clearOnChange (state_of (run evs s)) = clearOnChange s \<and>
   (textarea s \<noteq> None \<longrightarrow> textarea (state_of (run evs s)) \<noteq> None)"
proof (induction evs arbitrary: s)
  case Nil
  show ?case by simp
next
  case (Cons gev evs)
  obtain g ev where gev: "gev = (g, ev)" by (cases gev)
  from Cons.prems have b: "beforeFirstKey (g, ev)" and rest: "list_all beforeFirstKey evs"
    by (simp_all add: gev)
  show ?case
  proof (cases "exec g ev s")
    case (Normal s')
    have "clearOnChange s' = clearOnChange s" "textarea s \<noteq> None \<longrightarrow> textarea s' \<noteq> None"
      using exec_keeps_clearOnChange [OF b, of s]
        exec_keeps_textarea [OF beforeFirstKey_withinSession [OF b], of s] Normal by simp_all
    with Cons.IH [OF rest, of s'] Normal show ?thesis by (simp add: gev)
  next
    case (Throw e s')
    have "clearOnChange s' = clearOnChange s" "textarea s \<noteq> None \<longrightarrow> textarea s' \<noteq> None"
      using exec_keeps_clearOnChange [OF b, of s]
        exec_keeps_textarea [OF beforeFirstKey_withinSession [OF b], of s] Throw by simp_all
    with Throw show ?thesis by (simp add: gev)
  qed
qed

lemma run_after:
  "list_all withinSession evs \<Longrightarrow> \<not> clearOnChange s \<Longrightarrow> \<not> clearOnChange (state_of (run evs s))"
proof (induction evs arbitrary: s)
  case Nil
  then show ?case by simp
next
  case (Cons gev evs)
  obtain g ev where gev: "gev = (g, ev)" by (cases gev)
  from Cons.prems have b: "withinSession (g, ev)" and rest: "list_all withinSession evs"
    by (simp_all add: gev)
  have c: "\<not> clearOnChange (state_of (exec g ev s))"
    using exec_keeps_cleared [OF b Cons.prems(2)] .
  show ?case
  proof (cases "exec g ev s")
    case (Normal s')
    with c Cons.IH [OF rest, of s'] show ?thesis by (simp add: gev)
  next
    case (Throw e s')
    with c show ?thesis by (simp add: gev)
  qed
qed

lemma modifying_key:
  assumes "isModifyingKey g k" "textarea s \<noteq> None"
  shows "\<exists>s'. onKeyDown g k s = Normal s' \<and> \<not> clearOnChange s' \<and> isModified s' \<and>
     (clearOnChange s \<longrightarrow> (\<exists>ta. textarea s' = Some ta \<and> tvalue ta = []))"
  using assms
  by (auto simp: onKeyDown_def graph_stopEditing_def isModifyingKey_def setModified_def isModified_def)

subsection \<open>The position of the editor of a vertex\<close>

lemma applyLabelPosition_x:
  "x (applyLabelPosition st r) = x r +
     (if getValue (labelPosition (style st)) ALIGN_CENTER = ALIGN_LEFT then - width st
      else if getValue (labelPosition (style st)) ALIGN_CENTER = ALIGN_RIGHT then width st else 0)"
  by (simp add: applyLabelPosition_def Let_def)

lemma applyLabelPosition_y:
  "y (applyLabelPosition st r) = y r +
     (if getValue (verticalLabelPosition (style st)) ALIGN_MIDDLE = ALIGN_TOP then - height st
      else if getValue (verticalLabelPosition (style st)) ALIGN_MIDDLE = ALIGN_BOTTOM
      then height st else 0)"
  by (simp add: applyLabelPosition_def Let_def)

lemma getEditorBounds_vertex:
  assumes "isVertex g (cell st)" "\<not> isEdge g (cell st)" "textBoundingBox st = None"
    "getMinimumSize g s st = Inr m"
  shows "getEditorBounds g s st = Inr (applyLabelPosition st
     \<lparr>x = x st + (parseInt (orDefault (spacingLeft (style st)) 0) * scale g +
                   parseInt (orDefault (spacing (style st)) 2) * scale g),
      y = y st + (parseInt (orDefault (spacingTop (style st)) 0) * scale g +
                   parseInt (orDefault (spacing (style st)) 2) * scale g),
      width = max (width m) (width st
         - (parseInt (orDefault (spacingLeft (style st)) 0) * scale g +
                   parseInt (orDefault (spacing (style st)) 2) * scale g)
         - (parseInt (orDefault (spacingRight (style st)) 0) * scale g +
                   parseInt (orDefault (spacing (style st)) 2) * scale g)),
      height = max (height m) (height st
         - (parseInt (orDefault (spacingTop (style st)) 0) * scale g +
                   parseInt (orDefault (spacing (style st)) 2) * scale g)
         - (parseInt (orDefault (spacingBottom (style st)) 0) * scale g +
                   parseInt (orDefault (spacing (style st)) 2) * scale g))\<rparr>)"
  unfolding getEditorBounds_def Let_def
  by (simp only: assms sum.case option.case if_True if_False mxPoint.simps mxRectangle.simps
      mxPoint.update_convs mxRectangle.update_convs)

lemma getEditorBounds_posn:
  assumes "isVertex g (cell st)" "\<not> isEdge g (cell st)" "textBoundingBox st = None"
    "textarea s = Some ta"
  shows "\<exists>r. getEditorBounds g s (st\<lparr>style := (style st)\<lparr>labelPosition := lp\<rparr>\<rparr>) = Inr r \<and>
     x r = x st + (parseInt (orDefault (spacingLeft (style st)) 0) * scale g +
                   parseInt (orDefault (spacing (style st)) 2) * scale g) +
           (if getValue lp ALIGN_CENTER = ALIGN_LEFT then - width st
            else if getValue lp ALIGN_CENTER = ALIGN_RIGHT then width st else 0) \<and>
     y r = y st + (parseInt (orDefault (spacingTop (style st)) 0) * scale g +
                   parseInt (orDefault (spacing (style st)) 2) * scale g) +
           (if getValue (verticalLabelPosition (style st)) ALIGN_MIDDLE = ALIGN_TOP then - height st
            else if getValue (verticalLabelPosition (style st)) ALIGN_MIDDLE = ALIGN_BOTTOM
            then height st else 0)"
proof -
  define st' where "st' = st\<lparr>style := (style st)\<lparr>labelPosition := lp\<rparr>\<rparr>"
  obtain m where m: "getMinimumSize g s st' = Inr m"
    using assms(4) by (simp add: getMinimumSize_def)
  have h: "isVertex g (cell st')" "\<not> isEdge g (cell st')" "textBoundingBox st' = None"
    using assms(1,2,3) by (simp_all add: st'_def textBoundingBox_def)
  show ?thesis
    unfolding st'_def [symmetric] getEditorBounds_vertex [OF h m]
    by (simp add: applyLabelPosition_x applyLabelPosition_y) (simp add: st'_def)
qed

subsection \<open>The runs in the small diagram\<close>

lemma ex_new_reachable: "reachable ex_new"
  unfolding ex_new_def by (rule reachable_new)

lemma ex_new_facts:
  "editor_inv ex_new" "editingCell ex_new = None" "textarea ex_new = None"
  "autoSize ex_new" "emptyLabelText ex_new = []" "labelChanged ex_new = []"
  unfolding ex_new_def
  by (simp_all add: editor_inv_def new_mxCellEditor_def)

lemma ex_graph_state: "getState ex_graph 1 = Some (ex_state 1)" "getState ex_graph 2 = Some (ex_state 2)"
  by (simp_all add: ex_graph_def)

lemma ex_graph_values:
  "getInitialValue ex_graph (ex_state 1) trg = Some [CHR ''a'', CHR 0x0D, CHR 0x0A, CHR ''b'']"
  "getInitialValue ex_graph (ex_state 2) trg = None"
  by (simp_all add: getInitialValue_def ex_graph_def ex_state_def)

lemma ex_graph_gone_state: "getState ex_graph_gone c = None"
  by (simp add: ex_graph_gone_def)

lemma ex_init_textarea: "textarea (init ex_new) = Some new_textarea"
  by (simp add: init_def)

lemma ex_editing_facts:
  "reachable ex_editing" "editingCell ex_editing = Some 1" "textarea ex_editing \<noteq> None"
  "\<forall>ta. textarea ex_editing = Some ta \<longrightarrow> tvalue ta = [CHR ''a'', CHR 0x0D, CHR 0x0A, CHR ''b'']"
  "trigger ex_editing = Some 7" "\<not> modified ex_editing" "labelChanged ex_editing = []"
  "\<not> clearOnChange ex_editing" "textDiv ex_editing \<noteq> None"
  "textNode ex_editing = Node 1" "visibility ex_editing 1 = Some ''hidden''"
proof -
  show "reachable ex_editing"
    unfolding ex_editing_def by (rule reachable_exec) (rule ex_new_reachable)
  have live: "editingCell ex_new = None \<or> textarea ex_new \<noteq> None"
    by (simp add: ex_new_facts)
  from startEditing_result [OF ex_new_facts(1) live ex_graph_state(1), of "Some 7"]
  obtain s' ta' where r: "startEditing ex_graph 1 (Some 7) ex_new = Normal s'"
    "textarea s' = Some ta'" "tvalue ta' = [CHR ''a'', CHR 0x0D, CHR 0x0A, CHR ''b'']"
    "\<not> clearOnChange s'" "editingCell s' = Some 1" "trigger s' = Some 7" "\<not> modified s'"
    "labelChanged s' = []" "textDiv s' \<noteq> None"
    "textNode s' = Node 1" "visibility s' 1 = Some ''hidden''"
    unfolding ex_graph_values by (elim exE conjE) (simp add: ex_new_facts ex_state_def)
  have "ex_editing = s'" using r(1) by (simp add: ex_editing_def)
  with r show "editingCell ex_editing = Some 1" "textarea ex_editing \<noteq> None"
    "\<forall>ta. textarea ex_editing = Some ta \<longrightarrow> tvalue ta = [CHR ''a'', CHR 0x0D, CHR 0x0A, CHR ''b'']"
    "trigger ex_editing = Some 7" "\<not> modified ex_editing" "labelChanged ex_editing = []"
    "\<not> clearOnChange ex_editing" "textDiv ex_editing \<noteq> None"
    "textNode ex_editing = Node 1" "visibility ex_editing 1 = Some ''hidden''"
    by simp_all
qed

lemma ex_key_modifying: "isModifyingKey g ex_key"
  by (simp add: isModifyingKey_def isStopKey_def ex_key_def)

lemma ex_typed_eq: "ex_typed = ex_editing\<lparr>modified := True\<rparr>"
  using ex_editing_facts(3,8) ex_key_modifying [of ex_graph]
  by (auto simp: ex_typed_def onKeyDown_def graph_stopEditing_def isModifyingKey_def setModified_def)

lemma ex_typed_facts:
  "reachable ex_typed" "editingCell ex_typed = Some 1" "textarea ex_typed \<noteq> None"
  "\<forall>ta. textarea ex_typed = Some ta \<longrightarrow> tvalue ta = [CHR ''a'', CHR 0x0D, CHR 0x0A, CHR ''b'']"
  "trigger ex_typed = Some 7" "isModified ex_typed" "labelChanged ex_typed = []"
  "textDiv ex_typed \<noteq> None" "textNode ex_typed = Node 1"
proof -
  show "reachable ex_typed"
    unfolding ex_typed_def by (rule reachable_exec) (rule ex_editing_facts)
qed (use ex_editing_facts in \<open>simp_all add: ex_typed_eq isModified_def\<close>)

lemma ex_typed_session:
  "textNode ex_typed \<noteq> EmptyString" "\<forall>ta. textarea ex_typed = Some ta \<longrightarrow> parentNode ta"
  using reachable_inv [OF ex_typed_facts(1)] ex_typed_facts(2) by (auto simp: editor_inv_def)

lemma ex_stopped_facts:
  "reachable ex_stopped" "editingCell ex_stopped = None"
  "labelChanged ex_stopped = [(1, [CHR ''a'', CHR 0x0A, CHR ''b''], Some 7)]"
proof -
  show "reachable ex_stopped"
    unfolding ex_stopped_def by (rule reachable_exec) (rule ex_typed_facts)
  from ex_typed_facts(3) obtain ta where ta: "textarea ex_typed = Some ta" by auto
  with ex_typed_facts(4) have v: "tvalue ta = [CHR ''a'', CHR 0x0D, CHR 0x0A, CHR ''b'']" by simp
  from ex_typed_session ta have p: "parentNode ta" by simp
  note stop = stopEditing_result [OF ex_typed_facts(2) ex_typed_session(1) ta p, of False]
  show "editingCell ex_stopped = None"
    "labelChanged ex_stopped = [(1, [CHR ''a'', CHR 0x0A, CHR ''b''], Some 7)]"
    using ex_typed_facts(5,6,7) v by (simp_all add: ex_stopped_def stop)
qed

lemma ex_manual_facts:
  "reachable ex_manual" "editingCell ex_manual = Some 1" "textarea ex_manual \<noteq> None"
  "textDiv ex_manual = None"
proof -
  define s0 where "s0 = state_of (exec ex_graph (SetAutoSize False) ex_new)"
  have r0: "reachable s0" unfolding s0_def by (rule reachable_exec) (rule ex_new_reachable)
  show "reachable ex_manual"
    unfolding ex_manual_def s0_def [symmetric] by (rule reachable_exec) (rule r0)
  have s0f: "editingCell s0 = None" "\<not> autoSize s0"
    by (simp_all add: s0_def ex_new_facts)
  then have live: "editingCell s0 = None \<or> textarea s0 \<noteq> None" by simp
  from startEditing_result [OF reachable_inv [OF r0] live ex_graph_state(1), of "Some 7"]
  obtain s' ta' where r: "startEditing ex_graph 1 (Some 7) s0 = Normal s'"
    "textarea s' = Some ta'" "editingCell s' = Some 1" "textDiv s' = None"
    using s0f by (elim exE conjE) simp
  have "ex_manual = state_of (startEditing ex_graph 1 (Some 7) s0)"
    by (simp only: ex_manual_def s0_def exec.simps)
  then have "ex_manual = s'" by (simp only: r(1) state_of.simps)
  with r show "editingCell ex_manual = Some 1" "textarea ex_manual \<noteq> None"
    "textDiv ex_manual = None" by simp_all
qed

lemma ex_typed_hidden: "visibility ex_typed 1 = Some ''hidden''"
  using ex_editing_facts(11) by (simp add: ex_typed_eq)

lemma ex_destroyed_eq: "ex_destroyed = ex_typed\<lparr>textarea := None, changeHandler := False\<rparr>"
  using ex_typed_facts(3) by (auto simp: ex_destroyed_def destroy_def)

lemma ex_destroyed_facts:
  "reachable ex_destroyed" "editingCell ex_destroyed = Some 1" "textarea ex_destroyed = None"
  "isModified ex_destroyed" "labelChanged ex_destroyed = []" "textDiv ex_destroyed \<noteq> None"
  "textNode ex_destroyed = Node 1" "\<not> changeHandler ex_destroyed"
proof -
  show "reachable ex_destroyed"
    unfolding ex_destroyed_def by (rule reachable_exec) (rule ex_typed_facts)
qed (use ex_typed_facts in \<open>simp_all add: ex_destroyed_eq isModified_def\<close>)

lemma ex_placeholder_facts:
  "reachable ex_placeholder" "editor_inv ex_placeholder" "editingCell ex_placeholder = None"
  "emptyLabelText ex_placeholder = ''Type here''"
proof -
  show r: "reachable ex_placeholder"
    unfolding ex_placeholder_def by (rule reachable_exec) (rule ex_new_reachable)
  show "editor_inv ex_placeholder" using r by (rule reachable_inv)
  show "editingCell ex_placeholder = None" "emptyLabelText ex_placeholder = ''Type here''"
    by (simp_all add: ex_placeholder_def ex_new_facts)
qed

lemma ex_empty_start: "startEditing ex_graph 2 None ex_placeholder = Normal ex_empty"
proof -
  have live: "editingCell ex_placeholder = None \<or> textarea ex_placeholder \<noteq> None"
    by (simp add: ex_placeholder_facts)
  from startEditing_result [OF ex_placeholder_facts(2) live ex_graph_state(2), of None]
  obtain s' where "startEditing ex_graph 2 None ex_placeholder = Normal s'" by blast
  then show ?thesis by (simp add: ex_empty_def)
qed

subsection \<open>Starting an edit while another one is running\<close>

text \<open>
  C1, as the code has it. In an editor whose textarea exists, a call of
  \<open>startEditing\<close> on a cell \<open>e2\<close> while an edit of \<open>e1\<close> is running and modified ends
  the running edit first, by \<open>stopEditing(true)\<close>: the call is \<open>stopEditing(true)\<close>
  followed by \<open>startEditing\<close> on the idle editor. The running edit ends without a
  call of \<open>graph.labelChanged\<close>, so its pending text is discarded and not
  committed; the label that it had hidden is visible again; the text div, the
  bounds and the trigger are released and the textarea is taken out of the
  document. Then the edit of \<open>e2\<close> begins if the view has a state for it, and hides
  the label of that state; without a state the call is \<open>stopEditing(true)\<close> alone.
\<close>

theorem startEditing_cancels_running_edit:
  assumes "reachable s" "editingCell s = Some e1" "textarea s \<noteq> None" "isModified s"
  shows "startEditing g e2 t2 s = andThen (stopEditing True s) (startEditing g e2 t2) \<and>
     \<not> throws (stopEditing True s) \<and>
     editingCell (state_of (stopEditing True s)) = None \<and>
     labelChanged (state_of (stopEditing True s)) = labelChanged s \<and>
     textNode (state_of (stopEditing True s)) = Null \<and>
     (\<forall>n. textNode s = Node n \<longrightarrow>
        visibility (state_of (stopEditing True s)) n = Some ''visible'') \<and>
     textDiv (state_of (stopEditing True s)) = None \<and>
     bounds (state_of (stopEditing True s)) = None \<and>
     trigger (state_of (stopEditing True s)) = None \<and>
     (\<exists>ta. textarea (state_of (stopEditing True s)) = Some ta \<and>
        \<not> parentNode ta \<and> \<not> focused ta) \<and>
     labelChanged (state_of (startEditing g e2 t2 s)) = labelChanged s \<and>
     (getState g e2 = None \<longrightarrow> startEditing g e2 t2 s = stopEditing True s) \<and>
     (\<forall>st. getState g e2 = Some st \<longrightarrow>
        \<not> throws (startEditing g e2 t2 s) \<and>
        editingCell (state_of (startEditing g e2 t2 s)) = Some e2 \<and>
        visibility (state_of (startEditing g e2 t2 s)) =
          (case text_shape st of
             None \<Rightarrow> visibility (state_of (stopEditing True s))
           | Some tx \<Rightarrow> (visibility (state_of (stopEditing True s)))(node tx \<mapsto> ''hidden'')))"
proof -
  from assms(3) obtain ta where ta: "textarea s = Some ta" by auto
  note ses = reachable_session [OF assms(1,2) ta]
  note stop = stopEditing_result [OF assms(2) ses(1) ta ses(2), of True]
  define s1 where "s1 = state_of (stopEditing True s)"
  have s1: "stopEditing True s = Normal s1" by (simp add: s1_def stop)
  have s1f: "editingCell s1 = None" "textarea s1 \<noteq> None" "labelChanged s1 = labelChanged s"
    "textNode s1 = Null" "textDiv s1 = None" "bounds s1 = None" "trigger s1 = None"
    "\<exists>ta. textarea s1 = Some ta \<and> \<not> parentNode ta \<and> \<not> focused ta"
    "\<forall>n. textNode s = Node n \<longrightarrow> visibility s1 n = Some ''visible''"
    by (simp_all add: s1_def stop)
  have again: "stopEditing True s1 = Normal s1" using s1f by (simp add: stopEditing_idle)
  have a: "startEditing g e2 t2 s =
      (case getState g e2 of None \<Rightarrow> Normal s1 | Some st \<Rightarrow> beginEditing g e2 t2 st s1)"
    using ta s1 by (simp add: startEditing_def)
  have b: "startEditing g e2 t2 s1 =
      (case getState g e2 of None \<Rightarrow> Normal s1 | Some st \<Rightarrow> beginEditing g e2 t2 st s1)"
    using s1f again by (auto simp: startEditing_def)
  have eq: "startEditing g e2 t2 s = andThen (stopEditing True s) (startEditing g e2 t2)"
    by (simp add: s1 a b)
  have inv1: "editor_inv s1"
    using stopEditing_inv [OF reachable_inv [OF assms(1)], of True] by (simp add: s1_def)
  have lc: "labelChanged (state_of (startEditing g e2 t2 s)) = labelChanged s"
  proof (cases "getState g e2")
    case None
    then show ?thesis using a s1f by simp
  next
    case (Some st)
    from startEditing_result [OF inv1 _ Some, of t2] s1f show ?thesis
      unfolding a b by auto
  qed
  have none: "startEditing g e2 t2 s = stopEditing True s" if "getState g e2 = None"
    using that a s1 by simp
  have begins: "\<not> throws (startEditing g e2 t2 s) \<and>
      editingCell (state_of (startEditing g e2 t2 s)) = Some e2 \<and>
      visibility (state_of (startEditing g e2 t2 s)) =
          (case text_shape st of None \<Rightarrow> visibility s1
           | Some tx \<Rightarrow> (visibility s1)(node tx \<mapsto> ''hidden''))"
    if st: "getState g e2 = Some st" for st
  proof -
    from s1f(2) obtain ta1 where ta1: "textarea s1 = Some ta1" by auto
    have c: "startEditing g e2 t2 s = beginEditing g e2 t2 st s1" using a st by simp
    from beginEditing_result [OF ta1 st, of t2] beginEditing_visibility [OF ta1 st, of t2]
    show ?thesis unfolding c by auto
  qed
  show ?thesis
    unfolding s1_def [symmetric]
    apply (intro conjI allI impI)
    apply (rule eq)
    using s1 s1f lc none begins apply simp_all
    done
qed

text \<open>
  In the small diagram: cell 1 is edited, its label hidden, and a key was typed;
  then the edit of cell 2 is started. The label of cell 1 is visible again and that
  of cell 2 is hidden.
\<close>

theorem startEditing_cancels_running_edit_witness:
  "reachable ex_typed \<and> editingCell ex_typed = Some 1 \<and> textarea ex_typed \<noteq> None \<and>
   isModified ex_typed \<and> textNode ex_typed = Node 1 \<and> textDiv ex_typed \<noteq> None \<and>
   visibility ex_typed 1 = Some ''hidden'' \<and>
   getState ex_graph 2 = Some (ex_state 2) \<and>
   startEditing ex_graph 2 None ex_typed =
     andThen (stopEditing True ex_typed) (startEditing ex_graph 2 None) \<and>
   \<not> throws (stopEditing True ex_typed) \<and>
   editingCell (state_of (stopEditing True ex_typed)) = None \<and>
   labelChanged (state_of (stopEditing True ex_typed)) = [] \<and>
   visibility (state_of (stopEditing True ex_typed)) 1 = Some ''visible'' \<and>
   textDiv (state_of (stopEditing True ex_typed)) = None \<and>
   bounds (state_of (stopEditing True ex_typed)) = None \<and>
   labelChanged (state_of (startEditing ex_graph 2 None ex_typed)) = [] \<and>
   editingCell (state_of (startEditing ex_graph 2 None ex_typed)) = Some 2 \<and>
   visibility (state_of (startEditing ex_graph 2 None ex_typed)) 1 = Some ''visible'' \<and>
   visibility (state_of (startEditing ex_graph 2 None ex_typed)) 2 = Some ''hidden''"
proof -
  note t = startEditing_cancels_running_edit [OF ex_typed_facts(1,2,3,6), of ex_graph 2 None]
  from t have a: "startEditing ex_graph 2 None ex_typed =
     andThen (stopEditing True ex_typed) (startEditing ex_graph 2 None)"
    by (rule conjunct1)
  from t have b: "\<not> throws (stopEditing True ex_typed)"
    "editingCell (state_of (stopEditing True ex_typed)) = None"
    "labelChanged (state_of (stopEditing True ex_typed)) = labelChanged ex_typed"
    "textDiv (state_of (stopEditing True ex_typed)) = None"
    "bounds (state_of (stopEditing True ex_typed)) = None"
    "labelChanged (state_of (startEditing ex_graph 2 None ex_typed)) = labelChanged ex_typed"
    by blast+
  from t ex_typed_facts(9) have v1:
    "visibility (state_of (stopEditing True ex_typed)) 1 = Some ''visible''"
    by blast
  from t ex_graph_state(2) have c:
    "editingCell (state_of (startEditing ex_graph 2 None ex_typed)) = Some 2"
    "visibility (state_of (startEditing ex_graph 2 None ex_typed)) =
          (case text_shape (ex_state 2) of
             None \<Rightarrow> visibility (state_of (stopEditing True ex_typed))
           | Some tx \<Rightarrow> (visibility (state_of (stopEditing True ex_typed)))(node tx \<mapsto> ''hidden''))"
    by blast+
  have v2: "visibility (state_of (startEditing ex_graph 2 None ex_typed)) 1 = Some ''visible''"
    "visibility (state_of (startEditing ex_graph 2 None ex_typed)) 2 = Some ''hidden''"
    unfolding c(2) using v1 by (simp_all add: ex_state_def)
  show ?thesis
    by (intro conjI; (rule a | rule c(1) | rule v1 | rule v2 | rule ex_graph_state(2)
          | rule ex_typed_hidden | simp add: b ex_typed_facts))
qed

text \<open>
  C1 as stated fails there: the edit of cell 1 is modified, the edit of cell 2 has
  begun, and \<open>graph.labelChanged\<close> was never called. It fails as well when the
  editor was destroyed during the edit of cell 1: \<open>startEditing\<close> then throws, and
  \<open>graph.labelChanged\<close> was not called either.
\<close>

theorem startEditing_commits_counterexample:
  "editingCell ex_typed = Some 1 \<and> isModified ex_typed \<and>
   editingCell (state_of (startEditing ex_graph 2 None ex_typed)) = Some 2 \<and>
   labelChanged (state_of (startEditing ex_graph 2 None ex_typed)) = [] \<and>
   editingCell ex_destroyed = Some 1 \<and> isModified ex_destroyed \<and>
   throws (startEditing ex_graph 2 None ex_destroyed) \<and>
   editingCell (state_of (startEditing ex_graph 2 None ex_destroyed)) = None \<and>
   labelChanged (state_of (startEditing ex_graph 2 None ex_destroyed)) = []"
proof -
  have live: "editingCell ex_typed = None \<or> textarea ex_typed \<noteq> None"
    using ex_typed_facts(3) by simp
  from startEditing_result [OF reachable_inv [OF ex_typed_facts(1)] live ex_graph_state(2), of None]
  obtain s' where "startEditing ex_graph 2 None ex_typed = Normal s'"
    "editingCell s' = Some 2" "labelChanged s' = labelChanged ex_typed" by blast
  moreover have "throws (startEditing ex_graph 2 None ex_destroyed) \<and>
     editingCell (state_of (startEditing ex_graph 2 None ex_destroyed)) = None \<and>
     labelChanged (state_of (startEditing ex_graph 2 None ex_destroyed)) = labelChanged ex_destroyed"
    by (rule startEditing_destroyed_throws) (simp_all add: ex_destroyed_facts)
  ultimately show ?thesis using ex_typed_facts(2,6,7) ex_destroyed_facts by simp
qed

subsection \<open>Stopping an edit\<close>

text \<open>
  While the textarea exists, \<open>stopEditing(cancel)\<close> of a running edit of cell \<open>c\<close>
  returns, and it calls \<open>graph.labelChanged\<close> once, with \<open>c\<close>, the content of the
  textarea without its carriage returns and the trigger of the edit, if \<open>cancel\<close> is
  false and the editor is modified, and not at all otherwise.
\<close>

lemma stopEditing_commits_while_textarea:
  assumes "reachable s" "editingCell s = Some c" "textarea s = Some ta"
  shows "getCurrentValue s = Inr (filter (\<lambda>ch. ch \<noteq> CHR 0x0D) (tvalue ta)) \<and>
     \<not> throws (stopEditing cancel s) \<and>
     labelChanged (state_of (stopEditing cancel s)) =
       labelChanged s @
       (if \<not> cancel \<and> isModified s
        then [(c, filter (\<lambda>ch. ch \<noteq> CHR 0x0D) (tvalue ta), trigger s)] else [])"
proof -
  note ses = reachable_session [OF assms]
  show ?thesis
    using assms(3)
    by (simp add: getCurrentValue_def stopEditing_result [OF assms(2) ses(1) assms(3) ses(2)])
qed

text \<open>
  In the small diagram the label of cell 1 is \<open>a\<close>, carriage return, line feed,
  \<open>b\<close>: after a key was typed, stopping commits \<open>a\<close>, line feed, \<open>b\<close>, and
  cancelling commits nothing.
\<close>

lemma stopEditing_commits_example:
  "labelChanged (state_of (stopEditing False ex_typed)) =
     [(1, [CHR ''a'', CHR 0x0A, CHR ''b''], Some 7)] \<and>
   labelChanged (state_of (stopEditing True ex_typed)) = []"
proof -
  from ex_typed_facts(3) obtain ta where ta: "textarea ex_typed = Some ta" by auto
  with ex_typed_facts(4) have v: "tvalue ta = [CHR ''a'', CHR 0x0D, CHR 0x0A, CHR ''b'']" by simp
  show ?thesis
    using stopEditing_commits_while_textarea [OF ex_typed_facts(1,2) ta, of False]
      stopEditing_commits_while_textarea [OF ex_typed_facts(1,2) ta, of True]
      ex_typed_facts(5,6,7) v
    by simp
qed

text \<open>
  C2 fails in the code when the editor was destroyed during the edit. \<open>destroy\<close>
  sets the textarea to \<open>null\<close> and leaves \<open>editingCell\<close> as it is, so the edit of
  cell 1 is still running and modified; \<open>stopEditing(false)\<close> passes its guard and
  throws in \<open>getCurrentValue\<close>, where it reads the value of the textarea, before
  \<open>graph.labelChanged\<close> is reached. Nothing is committed and cell 1 is still the
  editing cell.
\<close>

theorem stopEditing_false_after_destroy:
  "editingCell ex_destroyed = Some 1 \<and> isModified ex_destroyed \<and>
   textarea ex_destroyed = None \<and>
   throws (stopEditing False ex_destroyed) \<and>
   labelChanged (state_of (stopEditing False ex_destroyed)) = [] \<and>
   editingCell (state_of (stopEditing False ex_destroyed)) = Some 1"
proof -
  have "throws (stopEditing False ex_destroyed) \<and>
     labelChanged (state_of (stopEditing False ex_destroyed)) = labelChanged ex_destroyed \<and>
     editingCell (state_of (stopEditing False ex_destroyed)) = Some 1"
    by (rule stopEditing_False_destroyed) (simp_all add: ex_destroyed_facts)
  then show ?thesis using ex_destroyed_facts by simp
qed

subsection \<open>The state of the edited cell disappears\<close>

text \<open>
  C3, as the code has it. In an editor whose textarea exists, when the view has no
  state for the edited cell, the next change notification of the model is
  \<open>stopEditing(true)\<close>, and so is the next call of \<open>resize\<close> if the text div for
  measuring exists; without the text div \<open>resize\<close> does nothing and the edit goes
  on. That \<open>stopEditing(true)\<close> returns, ends the edit, makes the hidden label
  visible again and does not call \<open>graph.labelChanged\<close>.
\<close>

theorem vanished_state_cancels:
  assumes "reachable s" "editingCell s = Some c" "textarea s \<noteq> None" "getState g c = None"
  shows "onModelChange g s = stopEditing True s \<and>
     (textDiv s \<noteq> None \<longrightarrow> resize g s = stopEditing True s) \<and>
     (textDiv s = None \<longrightarrow> resize g s = Normal s) \<and>
     \<not> throws (stopEditing True s) \<and>
     editingCell (state_of (stopEditing True s)) = None \<and>
     labelChanged (state_of (stopEditing True s)) = labelChanged s \<and>
     (\<forall>n. textNode s = Node n \<longrightarrow> visibility (state_of (stopEditing True s)) n = Some ''visible'')"
proof -
  from assms(3) obtain ta where ta: "textarea s = Some ta" by auto
  note assms = assms(1,2) ta assms(4)
  note ses = reachable_session [OF assms(1,2,3)]
  have gone: "viewGetState g (editingCell s) = None"
    using assms by (simp add: viewGetState_def)
  show ?thesis
    using assms(2) ses(3) gone
    by (simp add: onModelChange_def changeHandler_fn_def resize_gone resize_absent
        stopEditing_result [OF assms(2) ses(1) assms(3) ses(2)])
qed

text \<open>
  In the small diagram, with cell 1 edited, a key typed, and then the cells
  deleted.
\<close>

theorem vanished_state_cancels_witness:
  "reachable ex_typed \<and> editingCell ex_typed = Some 1 \<and> textarea ex_typed \<noteq> None \<and>
   getState ex_graph_gone 1 = None \<and> textDiv ex_typed \<noteq> None \<and> textNode ex_typed = Node 1 \<and>
   visibility (state_of (stopEditing True ex_typed)) 1 = Some ''visible'' \<and>
   onModelChange ex_graph_gone ex_typed = stopEditing True ex_typed \<and>
   resize ex_graph_gone ex_typed = stopEditing True ex_typed \<and>
   \<not> throws (stopEditing True ex_typed) \<and>
   editingCell (state_of (stopEditing True ex_typed)) = None \<and>
   labelChanged (state_of (stopEditing True ex_typed)) = []"
  using vanished_state_cancels [OF ex_typed_facts(1,2,3) ex_graph_gone_state [of 1]]
    ex_typed_facts ex_graph_gone_state [of 1]
  by simp

text \<open>
  C3 as stated fails for \<open>resize\<close> in an editor without \<open>autoSize\<close>: the cells are
  deleted, \<open>resize\<close> returns the editor as it was, still editing cell 1. It fails as
  well in an editor that was destroyed during the edit of cell 1: the change
  notification no longer reaches the editor, which stays as it was, and \<open>resize\<close>
  throws.
\<close>

theorem resize_without_textDiv_counterexample:
  "editingCell ex_manual = Some 1 \<and> getState ex_graph_gone 1 = None \<and>
   resize ex_graph_gone ex_manual = Normal ex_manual \<and>
   editingCell ex_destroyed = Some 1 \<and>
   onModelChange ex_graph_gone ex_destroyed = Normal ex_destroyed \<and>
   throws (resize ex_graph_gone ex_destroyed)"
proof -
  have "viewGetState ex_graph_gone (editingCell ex_destroyed) = None"
    by (simp add: viewGetState_def ex_destroyed_facts ex_graph_gone_state)
  then have "resize ex_graph_gone ex_destroyed = stopEditing True ex_destroyed"
    using ex_destroyed_facts(6) by (rule resize_gone [rotated])
  moreover have "throws (stopEditing True ex_destroyed)"
    by (rule stopEditing_destroyed_throws) (simp_all add: ex_destroyed_facts)
  ultimately show ?thesis
    using ex_manual_facts ex_destroyed_facts
    by (simp add: ex_graph_gone_state resize_absent onModelChange_def)
qed

subsection \<open>The minimum size\<close>

text \<open>
  C4, as the code has it. The width of the minimum size is the font size of the text
  shape times the scale plus 20 when the state has a text shape, without a lower
  bound of 30, and it is 30 otherwise; the height is 120 when the text of the
  textarea is aligned left and 40 otherwise. The width agrees with
  \<open>max(30, size * scale + 20)\<close> as soon as \<open>size * scale\<close> is at least 10.
\<close>

theorem getMinimumSize_value:
  assumes "textarea s = Some ta"
  shows "getMinimumSize g s st =
       Inr \<lparr>x = 0, y = 0,
            width = (case text_shape st of None \<Rightarrow> 30 | Some tx \<Rightarrow> size_pt tx * scale g + 20),
            height = (if css_textAlign ta = ''left'' then 120 else 40)\<rparr> \<and>
     (\<forall>tx. text_shape st = Some tx \<longrightarrow> 10 \<le> size_pt tx * scale g \<longrightarrow>
        size_pt tx * scale g + 20 = max 30 (size_pt tx * scale g + 20))"
  using assms by (simp add: getMinimumSize_def)

text \<open>
  For cell 1 of the small diagram, with a font size of 12, at scale 1/2 and at
  scale 1.
\<close>

theorem getMinimumSize_value_witness:
  "textarea (init ex_new) = Some new_textarea \<and>
   getMinimumSize ex_graph_half (init ex_new) (ex_state 1) =
     Inr \<lparr>x = 0, y = 0, width = 26, height = 40\<rparr> \<and>
   getMinimumSize ex_graph (init ex_new) (ex_state 1) =
     Inr \<lparr>x = 0, y = 0, width = 32, height = 40\<rparr> \<and>
   (32 :: real) = max 30 32"
  using getMinimumSize_value [OF ex_init_textarea, of ex_graph_half "ex_state 1"]
    getMinimumSize_value [OF ex_init_textarea, of ex_graph "ex_state 1"]
  by (simp add: ex_init_textarea ex_state_def ex_graph_half_def ex_graph_def new_textarea_def)

text \<open>
  C4 as stated fails at scale 1/2: the font size is 12, the minimum width is 26,
  and \<open>max(30, 12 * 1/2 + 20)\<close> is 30.
\<close>

theorem getMinimumSize_floor_counterexample:
  "map_option size_pt (text_shape (ex_state 1)) = Some 12 \<and> scale ex_graph_half = 1 / 2 \<and>
   getMinimumSize ex_graph_half (init ex_new) (ex_state 1) =
     Inr \<lparr>x = 0, y = 0, width = 26, height = 40\<rparr> \<and>
   max 30 (12 * (1 / 2) + 20) = (30 :: real)"
  by (simp add: getMinimumSize_def ex_init_textarea ex_state_def ex_graph_half_def ex_graph_def
      new_textarea_def)

subsection \<open>The label position in the editor bounds\<close>

text \<open>
  C5. For a vertex without text bounding box, with the default spacing and at scale
  1, the editor bounds for the label position \<open>right\<close> have their \<open>x\<close> exactly the
  width of the state larger than those for \<open>center\<close>, and those for \<open>left\<close> exactly
  the width smaller. For a state of 100 by 40 at (10, 20) with no spacing on the
  sides, \<open>center\<close> gives \<open>x = 12\<close> and \<open>y = 22\<close>, \<open>right\<close> gives \<open>x = 112\<close> and
  \<open>left\<close> gives \<open>x = -88\<close>.
\<close>

theorem getEditorBounds_label_position:
  assumes "isVertex g (cell st)" "\<not> isEdge g (cell st)" "textBoundingBox st = None"
    "spacing (style st) = None" "scale g = 1" "textarea s = Some ta"
  shows "\<exists>center right left.
     getEditorBounds g s (st\<lparr>style := (style st)\<lparr>labelPosition := Some ''center''\<rparr>\<rparr>) = Inr center \<and>
     getEditorBounds g s (st\<lparr>style := (style st)\<lparr>labelPosition := Some ''right''\<rparr>\<rparr>) = Inr right \<and>
     getEditorBounds g s (st\<lparr>style := (style st)\<lparr>labelPosition := Some ''left''\<rparr>\<rparr>) = Inr left \<and>
     x right = x center + width st \<and> x left = x center - width st \<and>
     (x st = 10 \<and> y st = 20 \<and> width st = 100 \<and> height st = 40 \<and>
      spacingLeft (style st) = None \<and> spacingTop (style st) = None \<and>
      verticalLabelPosition (style st) = None \<longrightarrow>
        x center = 12 \<and> y center = 22 \<and> x right = 112 \<and> x left = - 88)"
proof -
  note b = getEditorBounds_posn [OF assms(1,2,3,6)]
  from b [of "Some ''center''"] obtain center where
    c: "getEditorBounds g s (st\<lparr>style := (style st)\<lparr>labelPosition := Some ''center''\<rparr>\<rparr>) = Inr center"
    and cx: "x center = x st + (parseInt (orDefault (spacingLeft (style st)) 0) * scale g +
                   parseInt (orDefault (spacing (style st)) 2) * scale g)"
    and cy: "y center = y st + (parseInt (orDefault (spacingTop (style st)) 0) * scale g +
                   parseInt (orDefault (spacing (style st)) 2) * scale g) +
           (if getValue (verticalLabelPosition (style st)) ALIGN_MIDDLE = ALIGN_TOP then - height st
            else if getValue (verticalLabelPosition (style st)) ALIGN_MIDDLE = ALIGN_BOTTOM
            then height st else 0)"
    by (auto simp: getValue_def ALIGN_CENTER_def ALIGN_LEFT_def ALIGN_RIGHT_def)
  from b [of "Some ''right''"] obtain right where
    r: "getEditorBounds g s (st\<lparr>style := (style st)\<lparr>labelPosition := Some ''right''\<rparr>\<rparr>) = Inr right"
    and rx: "x right = x st + (parseInt (orDefault (spacingLeft (style st)) 0) * scale g +
                   parseInt (orDefault (spacing (style st)) 2) * scale g) + width st"
    by (auto simp: getValue_def ALIGN_CENTER_def ALIGN_LEFT_def ALIGN_RIGHT_def)
  from b [of "Some ''left''"] obtain left where
    l: "getEditorBounds g s (st\<lparr>style := (style st)\<lparr>labelPosition := Some ''left''\<rparr>\<rparr>) = Inr left"
    and lx: "x left = x st + (parseInt (orDefault (spacingLeft (style st)) 0) * scale g +
                   parseInt (orDefault (spacing (style st)) 2) * scale g) - width st"
    by (auto simp: getValue_def ALIGN_CENTER_def ALIGN_LEFT_def ALIGN_RIGHT_def)
  have vals: "x center = 12 \<and> y center = 22 \<and> x right = 112 \<and> x left = - 88"
    if "x st = 10" "y st = 20" "width st = 100" "height st = 40"
      "spacingLeft (style st) = None" "spacingTop (style st) = None"
      "verticalLabelPosition (style st) = None"
    using that cx cy rx lx assms(4,5)
    by (simp add: orDefault_def parseInt_def getValue_def ALIGN_MIDDLE_def ALIGN_TOP_def
        ALIGN_BOTTOM_def)
  show ?thesis
    apply (rule exI [of _ center], rule exI [of _ right], rule exI [of _ left])
    using c r l cx rx lx vals apply simp
    done
qed

text \<open>
  Cell 1 of the small diagram is such a vertex.
\<close>

theorem getEditorBounds_label_position_witness:
  "isVertex ex_graph (cell (ex_state 1)) \<and> \<not> isEdge ex_graph (cell (ex_state 1)) \<and>
   textBoundingBox (ex_state 1) = None \<and> spacing (style (ex_state 1)) = None \<and>
   scale ex_graph = 1 \<and> textarea (init ex_new) = Some new_textarea \<and>
   (\<exists>center right left.
     getEditorBounds ex_graph (init ex_new)
       (ex_state 1\<lparr>style := (style (ex_state 1))\<lparr>labelPosition := Some ''center''\<rparr>\<rparr>) = Inr center \<and>
     getEditorBounds ex_graph (init ex_new)
       (ex_state 1\<lparr>style := (style (ex_state 1))\<lparr>labelPosition := Some ''right''\<rparr>\<rparr>) = Inr right \<and>
     getEditorBounds ex_graph (init ex_new)
       (ex_state 1\<lparr>style := (style (ex_state 1))\<lparr>labelPosition := Some ''left''\<rparr>\<rparr>) = Inr left \<and>
     x center = 12 \<and> y center = 22 \<and> x right = 112 \<and> x left = - 88)"
proof -
  have h: "isVertex ex_graph (cell (ex_state 1))" "\<not> isEdge ex_graph (cell (ex_state 1))"
    "textBoundingBox (ex_state 1) = None" "spacing (style (ex_state 1)) = None"
    "scale ex_graph = 1"
    by (simp_all add: ex_graph_def ex_state_def ex_style_def textBoundingBox_def)
  have v: "x (ex_state 1) = 10 \<and> y (ex_state 1) = 20 \<and> width (ex_state 1) = 100 \<and>
      height (ex_state 1) = 40 \<and> spacingLeft (style (ex_state 1)) = None \<and>
      spacingTop (style (ex_state 1)) = None \<and> verticalLabelPosition (style (ex_state 1)) = None"
    by (simp add: ex_state_def ex_style_def)
  from getEditorBounds_label_position [OF h ex_init_textarea] v h ex_init_textarea
  show ?thesis by blast
qed

subsection \<open>The placeholder of an empty label\<close>

text \<open>
  C6. When \<open>startEditing\<close> returns for a cell with a state and an empty label (the
  editing value is \<open>null\<close> or the empty string), the textarea holds the text that the
  field \<open>emptyLabelText\<close> of the editor had at the call, \<open>clearOnChange\<close> is true and
  the editor is not modified. In the edit that follows \<open>clearOnChange\<close> stays true
  as long as no modifying keystroke happens; the first modifying keystroke sets it
  to false, empties the textarea and marks the editor as modified; and it stays
  false afterwards. So it changes from true to false exactly once, at the first
  modifying keystroke.
\<close>

theorem clearOnChange_cleared_once:
  assumes "getState g c = Some st"
    and "getInitialValue g st trg = None \<or> getInitialValue g st trg = Some []"
    and "startEditing g c trg s0 = Normal s1"
  shows "(\<exists>ta. textarea s1 = Some ta \<and> tvalue ta = emptyLabelText s0) \<and>
     clearOnChange s1 \<and> \<not> isModified s1 \<and>
     (\<forall>evs. list_all beforeFirstKey evs \<longrightarrow> clearOnChange (state_of (run evs s1))) \<and>
     (\<forall>evs g' k evs'.
        list_all beforeFirstKey evs \<longrightarrow> isModifyingKey g' k \<longrightarrow> list_all withinSession evs' \<longrightarrow>
        \<not> throws (onKeyDown g' k (state_of (run evs s1))) \<and>
        \<not> clearOnChange (state_of (onKeyDown g' k (state_of (run evs s1)))) \<and>
        isModified (state_of (onKeyDown g' k (state_of (run evs s1)))) \<and>
        (\<exists>ta. textarea (state_of (onKeyDown g' k (state_of (run evs s1)))) = Some ta \<and>
              tvalue ta = []) \<and>
        \<not> clearOnChange (state_of (run evs' (state_of (onKeyDown g' k (state_of (run evs s1)))))))"
proof -
  from startEditing_Normal [OF assms(3,1)] assms(2) obtain ta where
    seed: "textarea s1 = Some ta" "tvalue ta = emptyLabelText s0" "clearOnChange s1" "\<not> modified s1"
    by auto
  have before: "clearOnChange (state_of (run evs s1)) \<and> textarea (state_of (run evs s1)) \<noteq> None"
    if "list_all beforeFirstKey evs" for evs
    using run_before [OF that, of s1] seed by simp
  have key: "\<not> throws (onKeyDown g' k (state_of (run evs s1))) \<and>
        \<not> clearOnChange (state_of (onKeyDown g' k (state_of (run evs s1)))) \<and>
        isModified (state_of (onKeyDown g' k (state_of (run evs s1)))) \<and>
        (\<exists>ta. textarea (state_of (onKeyDown g' k (state_of (run evs s1)))) = Some ta \<and>
              tvalue ta = []) \<and>
        \<not> clearOnChange (state_of (run evs' (state_of (onKeyDown g' k (state_of (run evs s1))))))"
    if "list_all beforeFirstKey evs" "isModifyingKey g' k" "list_all withinSession evs'"
    for evs g' k evs'
  proof -
    from before [OF that(1)] have b: "clearOnChange (state_of (run evs s1))"
      "textarea (state_of (run evs s1)) \<noteq> None" by simp_all
    from modifying_key [OF that(2) b(2)] b(1) obtain s3 where
      s3: "onKeyDown g' k (state_of (run evs s1)) = Normal s3" "\<not> clearOnChange s3"
        "isModified s3" "\<exists>ta. textarea s3 = Some ta \<and> tvalue ta = []"
      by auto
    from run_after [OF that(3) s3(2)] s3 show ?thesis by simp
  qed
  show ?thesis
    using seed before key by (simp add: isModified_def)
qed

text \<open>
  Cell 2 of the small diagram has no label, and the empty label text of the editor
  is \<open>Type here\<close>: the textarea holds \<open>Type here\<close>; a change event and an input
  event leave the flag, the key A clears it and empties the textarea, and a second
  key leaves it cleared.
\<close>

theorem clearOnChange_cleared_once_witness:
  "getState ex_graph 2 = Some (ex_state 2) \<and> getInitialValue ex_graph (ex_state 2) None = None \<and>
   emptyLabelText ex_placeholder = ''Type here'' \<and>
   startEditing ex_graph 2 None ex_placeholder = Normal ex_empty \<and>
   list_all beforeFirstKey [(ex_graph, Change), (ex_graph, Input False)] \<and>
   isModifyingKey ex_graph ex_key \<and> list_all withinSession [(ex_graph, KeyDown ex_key)] \<and>
   (\<exists>ta. textarea ex_empty = Some ta \<and> tvalue ta = ''Type here'') \<and>
   clearOnChange ex_empty \<and>
   clearOnChange (state_of (run [(ex_graph, Change), (ex_graph, Input False)] ex_empty)) \<and>
   \<not> clearOnChange (state_of (onKeyDown ex_graph ex_key
        (state_of (run [(ex_graph, Change), (ex_graph, Input False)] ex_empty)))) \<and>
   (\<exists>ta. textarea (state_of (onKeyDown ex_graph ex_key
        (state_of (run [(ex_graph, Change), (ex_graph, Input False)] ex_empty)))) = Some ta \<and>
      tvalue ta = []) \<and>
   \<not> clearOnChange (state_of (run [(ex_graph, KeyDown ex_key)]
        (state_of (onKeyDown ex_graph ex_key
          (state_of (run [(ex_graph, Change), (ex_graph, Input False)] ex_empty))))))"
proof -
  have h2: "getInitialValue ex_graph (ex_state 2) None = None \<or>
      getInitialValue ex_graph (ex_state 2) None = Some []"
    by (simp add: ex_graph_values)
  have l1: "list_all beforeFirstKey [(ex_graph, Change), (ex_graph, Input False)]" by simp
  have l2: "list_all withinSession [(ex_graph, KeyDown ex_key)]" by simp
  note t = clearOnChange_cleared_once [OF ex_graph_state(2) h2 ex_empty_start]
  from t have a: "clearOnChange ex_empty"
    "\<exists>ta. textarea ex_empty = Some ta \<and> tvalue ta = emptyLabelText ex_placeholder" by blast+
  from t l1 have b: "clearOnChange (state_of (run [(ex_graph, Change), (ex_graph, Input False)] ex_empty))"
    by blast
  from t l1 l2 ex_key_modifying [of ex_graph] have c:
    "\<not> clearOnChange (state_of (onKeyDown ex_graph ex_key
        (state_of (run [(ex_graph, Change), (ex_graph, Input False)] ex_empty))))"
    "\<exists>ta. textarea (state_of (onKeyDown ex_graph ex_key
        (state_of (run [(ex_graph, Change), (ex_graph, Input False)] ex_empty)))) = Some ta \<and>
      tvalue ta = []"
    "\<not> clearOnChange (state_of (run [(ex_graph, KeyDown ex_key)]
        (state_of (onKeyDown ex_graph ex_key
          (state_of (run [(ex_graph, Change), (ex_graph, Input False)] ex_empty))))))"
    by blast+
  show ?thesis
    using a b c l1 l2 ex_key_modifying [of ex_graph] ex_empty_start ex_graph_state(2)
    by (simp add: ex_graph_values ex_placeholder_facts)
qed

subsection \<open>No edit is running\<close>

text \<open>
  C7. When no edit is running, \<open>stopEditing(cancel)\<close>, for either value of
  \<open>cancel\<close>, and \<open>resize\<close> return and leave the editor and everything it acts on
  as they were; in particular no handler is called.
\<close>

theorem idle_stopEditing_resize_noop:
  "reachable s \<Longrightarrow> editingCell s = None \<Longrightarrow>
   stopEditing cancel s = Normal s \<and> resize g s = Normal s"
proof -
  assume r: "reachable s" and idle: "editingCell s = None"
  from reachable_inv [OF r] idle have "textDiv s = None" by (auto simp: editor_inv_def)
  then show ?thesis using idle by (simp add: stopEditing_idle resize_absent)
qed

text \<open>
  In the small diagram, after the edit of cell 1 was stopped.
\<close>

theorem idle_stopEditing_resize_noop_witness:
  "reachable ex_stopped \<and> editingCell ex_stopped = None \<and>
   stopEditing False ex_stopped = Normal ex_stopped \<and>
   stopEditing True ex_stopped = Normal ex_stopped \<and>
   resize ex_graph_gone ex_stopped = Normal ex_stopped"
  using idle_stopEditing_resize_noop [OF ex_stopped_facts(1,2), of False ex_graph_gone]
    idle_stopEditing_resize_noop [OF ex_stopped_facts(1,2), of True ex_graph_gone]
    ex_stopped_facts(1,2)
  by simp

subsection \<open>After \<open>destroy\<close>\<close>

text \<open>
  C8, as the code has it. After \<open>destroy\<close> of an editor in which no edit is running,
  a second \<open>destroy\<close>, \<open>stopEditing\<close>, \<open>resize\<close> and the events of the released
  textarea or of the model return and change nothing. \<open>startEditing\<close> is different:
  it creates the textarea again and, if the view has a state for the cell, begins
  an edit.
\<close>

theorem destroyed_idle_editor:
  assumes "reachable s" "editingCell s = None"
  shows "destroy (destroy s) = destroy s \<and>
     stopEditing cancel (destroy s) = Normal (destroy s) \<and>
     resize g (destroy s) = Normal (destroy s) \<and>
     onKeyDown g evt (destroy s) = Normal (destroy s) \<and>
     onBlur g (destroy s) = Normal (destroy s) \<and>
     onChange (destroy s) = Normal (destroy s) \<and>
     onInput isConsumed (destroy s) = Normal (destroy s) \<and>
     onModelChange g (destroy s) = Normal (destroy s) \<and>
     (\<forall>st. getState g c = Some st \<longrightarrow>
        \<not> throws (startEditing g c trg (destroy s)) \<and>
        editingCell (state_of (startEditing g c trg (destroy s))) = Some c \<and>
        textarea (state_of (startEditing g c trg (destroy s))) \<noteq> None)"
proof -
  have inv: "editor_inv (destroy s)"
    using exec_inv [OF reachable_inv [OF assms(1)], of g Destroy] by simp
  have d: "editingCell (destroy s) = None" "textarea (destroy s) = None"
    using assms(2) by (simp_all add: destroy_def split: option.splits)
  from inv d have td: "textDiv (destroy s) = None" by (auto simp: editor_inv_def)
  have start: "\<not> throws (startEditing g c trg (destroy s)) \<and>
        editingCell (state_of (startEditing g c trg (destroy s))) = Some c \<and>
        textarea (state_of (startEditing g c trg (destroy s))) \<noteq> None"
    if "getState g c = Some st" for st
    using startEditing_result [OF inv _ that, of trg] d by auto
  show ?thesis
    using d td start
    by (simp add: stopEditing_idle resize_absent onKeyDown_def graph_stopEditing_def onBlur_def onChange_def
        onInput_def onModelChange_def changeHandler_fn_def destroy_def)
qed

text \<open>
  In the small diagram, after the edit of cell 1 was stopped.
\<close>

theorem destroyed_idle_editor_witness:
  "reachable ex_stopped \<and> editingCell ex_stopped = None \<and>
   getState ex_graph 1 = Some (ex_state 1) \<and>
   destroy (destroy ex_stopped) = destroy ex_stopped \<and>
   stopEditing False (destroy ex_stopped) = Normal (destroy ex_stopped) \<and>
   resize ex_graph (destroy ex_stopped) = Normal (destroy ex_stopped) \<and>
   \<not> throws (startEditing ex_graph 1 None (destroy ex_stopped)) \<and>
   editingCell (state_of (startEditing ex_graph 1 None (destroy ex_stopped))) = Some 1"
  using destroyed_idle_editor [OF ex_stopped_facts(1,2), of False ex_graph ex_key False 1 None]
    ex_stopped_facts(1,2) ex_graph_state(1)
  by simp

text \<open>
  C8 as stated fails twice: after \<open>destroy\<close> of the idle editor \<open>startEditing\<close>
  begins an edit of cell 1, and after \<open>destroy\<close> during the edit of cell 1
  \<open>stopEditing\<close> throws.
\<close>

theorem destroy_counterexample:
  "editingCell (destroy ex_stopped) = None \<and>
   editingCell (state_of (startEditing ex_graph 1 None (destroy ex_stopped))) = Some 1 \<and>
   throws (stopEditing True (destroy ex_typed))"
proof -
  have inv: "editor_inv (destroy ex_stopped)"
    using exec_inv [OF reachable_inv [OF ex_stopped_facts(1)], of ex_graph Destroy] by simp
  have d: "editingCell (destroy ex_stopped) = None"
    using ex_stopped_facts(2) by (simp add: destroy_def split: option.splits)
  then have live: "editingCell (destroy ex_stopped) = None \<or> textarea (destroy ex_stopped) \<noteq> None"
    by simp
  from startEditing_result [OF inv live ex_graph_state(1), of None]
  have a: "editingCell (state_of (startEditing ex_graph 1 None (destroy ex_stopped))) = Some 1"
    by auto
  have "editingCell (destroy ex_typed) \<noteq> None" "textarea (destroy ex_typed) = None"
    using ex_typed_facts(2) by (simp_all add: destroy_def split: option.splits)
  then have "throws (stopEditing True (destroy ex_typed))"
    by (rule stopEditing_destroyed_throws)
  with d a show ?thesis by simp
qed

end
